theory Spec2Isabelle
  imports Main "HOL-Library.AList" "HOL-Library.List_Lexorder" "HOL-Library.Char_ord"
begin

section \<open>The relay manager of forwardmebot (main.go)\<close>

text \<open>
  The program is one Go file. Its functions are translated one by one, with the
  source's names; every function that touches the database, the messaging platform or
  the log takes the state of the process and returns the new one. User and chat ids
  are Go \<open>int64\<close> and counters Go \<open>int\<close> (64 bits on the two build targets,
  linux/amd64 and linux/arm64): both are \<open>int\<close> here, with the range checks of
  \<open>strconv.ParseInt\<close> and the wrap-around of \<open>++\<close> written out.
\<close>

subsection \<open>Library functions the source calls: strconv, strings\<close>

definition int64_min :: int where
  "int64_min = - 9223372036854775808"

definition int64_max :: int where
  "int64_max = 9223372036854775807"

definition in_int64 :: "int \<Rightarrow> bool" where
  "in_int64 i = (int64_min \<le> i \<and> i \<le> int64_max)"

text \<open>Two's complement wrap-around of a 64-bit signed result.\<close>

definition wrap64 :: "int \<Rightarrow> int" where
  "wrap64 i = (i + 9223372036854775808) mod 18446744073709551616 - 9223372036854775808"

definition is_digit :: "char \<Rightarrow> bool" where
  "is_digit c = (48 \<le> (of_char c :: nat) \<and> (of_char c :: nat) \<le> 57)"

definition digit_val :: "char \<Rightarrow> nat" where
  "digit_val c = of_char c - 48"

definition digit_char :: "nat \<Rightarrow> char" where
  "digit_char d = ''0123456789'' ! d"

text \<open>The decimal digits of a natural number, most significant first.\<close>

fun digits :: "nat \<Rightarrow> string" where
  "digits n = (if n < 10 then [digit_char n] else digits (n div 10) @ [digit_char (n mod 10)])"

declare digits.simps [simp del]

definition digits_val :: "string \<Rightarrow> nat" where
  "digits_val ds = foldl (\<lambda>n c. 10 * n + digit_val c) 0 ds"

text \<open>\<open>strconv.FormatInt(i, 10)\<close>.\<close>

definition FormatInt :: "int \<Rightarrow> string" where
  "FormatInt i = (if i < 0 then CHR ''-'' # digits (nat (- i)) else digits (nat i))"

text \<open>
  \<open>strconv.ParseInt(s, 10, 64)\<close>: an optional sign, then one or more decimal digits and
  nothing else; a value outside the 64-bit signed range is an error. \<open>None\<close> stands for
  a non-nil \<open>err\<close> (the source never reads the number returned beside an error).
\<close>

definition ParseInt :: "string \<Rightarrow> int option" where
  "ParseInt s =
     (if s = [] then None
      else
        let neg = (hd s = CHR ''-'');
            s0 = (if hd s = CHR ''+'' \<or> hd s = CHR ''-'' then tl s else s)
        in
          if s0 = [] \<or> \<not> list_all is_digit s0 then None
          else
            let un = int (digits_val s0)
            in
              if \<not> neg \<and> un > int64_max then None
              else if neg \<and> un > - int64_min then None
              else Some (if neg then - un else un))"

text \<open>
  \<open>strings.Split(s, ",")\<close>: the pieces of \<open>s\<close> between the commas; the empty string
  gives one empty piece.
\<close>

fun Split :: "string \<Rightarrow> string list" where
  "Split [] = [[]]"
| "Split (c # cs) =
     (if c = CHR '','' then [] # Split cs
      else (case Split cs of [] \<Rightarrow> [[c]] | p # ps \<Rightarrow> (c # p) # ps))"

text \<open>\<open>strings.Join(elems, ",")\<close>.\<close>

fun Join :: "string list \<Rightarrow> string" where
  "Join [] = []"
| "Join [p] = p"
| "Join (p # q # ps) = p @ CHR '','' # Join (q # ps)"

subsection \<open>Library functions the source calls: encoding/json on \<open>map[string]int\<close>\<close>

text \<open>
  A Go \<open>map[string]int\<close> is an association list with distinct keys: \<open>m[k]\<close> reads
  0 for a missing key, \<open>m[k]++\<close> and \<open>delete(m, k)\<close> are \<open>go_incr\<close> and
  \<open>AList.delete\<close>.
\<close>

type_synonym go_map = "(string \<times> int) list"

definition go_index :: "go_map \<Rightarrow> string \<Rightarrow> int" where
  "go_index m k = (case map_of m k of None \<Rightarrow> 0 | Some v \<Rightarrow> v)"

definition go_incr :: "go_map \<Rightarrow> string \<Rightarrow> go_map" where
  "go_incr m k = AList.update k (wrap64 (go_index m k + 1)) m"

text \<open>
  \<open>json.Marshal\<close> of such a map: an object whose members are written in the order of
  their keys, each key in double quotes and each value in decimal. It has no error case
  for this type, so the source's check of its error is a dead branch and is left out.
  Keys are written as they are: every key the program ever holds is a decimal numeral or
  was read by \<open>json_Unmarshal\<close> below, which admits no character that needs an escape.
\<close>

definition json_member :: "string \<times> int \<Rightarrow> string" where
  "json_member kv = CHR 0x22 # fst kv @ CHR 0x22 # CHR '':'' # FormatInt (snd kv)"

definition json_Marshal :: "go_map \<Rightarrow> string" where
  "json_Marshal m = CHR ''{'' # Join (map json_member (sort_key fst m)) @ ''}''"

text \<open>
  \<open>json.Unmarshal\<close> into a \<open>map[string]int\<close>, as a scanner that reads the text one
  character at a time. It accepts a JSON object whose values are integers in the 64-bit
  range, with JSON white space between the tokens; a key read twice keeps its last
  value. Everything else is a decoding error. That is what the library does on every
  text this program writes; on texts only another writer could have stored (\<open>null\<close>,
  keys with escapes, members of another type) the library differs, and none of the
  theorems below is about such a text in particular.
\<close>

datatype jstate =
    JStart
  | JOpen go_map
  | JKey go_map string
  | JColon go_map string
  | JValue go_map string
  | JMinus go_map string
  | JNum go_map string bool string
  | JAfter go_map
  | JComma go_map
  | JEnd go_map
  | JErr

definition is_ws :: "char \<Rightarrow> bool" where
  "is_ws c = (c = CHR '' '' \<or> c = CHR 0x09 \<or> c = CHR 0x0A \<or> c = CHR 0x0D)"

definition key_char :: "char \<Rightarrow> bool" where
  "key_char c = (c \<noteq> CHR 0x22 \<and> c \<noteq> CHR 0x5C \<and> (32::nat) \<le> of_char c)"

definition json_number :: "bool \<Rightarrow> string \<Rightarrow> int" where
  "json_number neg ds = (if neg then - int (digits_val ds) else int (digits_val ds))"

definition json_after :: "go_map \<Rightarrow> char \<Rightarrow> jstate" where
  "json_after m c =
     (if is_ws c then JAfter m
      else if c = CHR '','' then JComma m
      else if c = CHR ''}'' then JEnd m
      else JErr)"

fun json_step :: "jstate \<Rightarrow> char \<Rightarrow> jstate" where
  "json_step JStart c =
     (if is_ws c then JStart else if c = CHR ''{'' then JOpen [] else JErr)"
| "json_step (JOpen m) c =
     (if is_ws c then JOpen m
      else if c = CHR 0x22 then JKey m []
      else if c = CHR ''}'' then JEnd m
      else JErr)"
| "json_step (JKey m k) c =
     (if c = CHR 0x22 then JColon m k
      else if key_char c then JKey m (k @ [c])
      else JErr)"
| "json_step (JColon m k) c =
     (if is_ws c then JColon m k else if c = CHR '':'' then JValue m k else JErr)"
| "json_step (JValue m k) c =
     (if is_ws c then JValue m k
      else if c = CHR ''-'' then JMinus m k
      else if is_digit c then JNum m k False [c]
      else JErr)"
| "json_step (JMinus m k) c =
     (if is_digit c then JNum m k True [c] else JErr)"
| "json_step (JNum m k neg ds) c =
     (if is_digit c then (if ds = ''0'' then JErr else JNum m k neg (ds @ [c]))
      else if in_int64 (json_number neg ds)
        then json_after (AList.update k (json_number neg ds) m) c
      else JErr)"
| "json_step (JAfter m) c = json_after m c"
| "json_step (JComma m) c =
     (if is_ws c then JComma m else if c = CHR 0x22 then JKey m [] else JErr)"
| "json_step (JEnd m) c = (if is_ws c then JEnd m else JErr)"
| "json_step JErr c = JErr"

text \<open>\<open>None\<close> is a decoding error; the map the caller passed is then left as it was.\<close>

definition json_Unmarshal :: "string \<Rightarrow> go_map option" where
  "json_Unmarshal s = (case foldl json_step JStart s of JEnd m \<Rightarrow> Some m | _ \<Rightarrow> None)"

subsection \<open>The state of the process\<close>

text \<open>
  \<open>error\<close> is the Go \<open>error\<close> value of a failed call: \<open>sql.ErrNoRows\<close>, any other
  failure of the database (with a code that tells one failure from another), the
  refusal of a second row with the same primary key, a failure of the messaging
  platform, and a decoding error of \<open>json.Unmarshal\<close>.
\<close>

datatype error = ErrNoRows | DbError nat | ErrConstraint | ApiError nat | UnmarshalError

text \<open>
  One row of the table \<open>bots\<close> (created in \<open>main\<close>): \<open>token TEXT PRIMARY KEY,
  creator_id INTEGER, blocked_users TEXT DEFAULT "", appeal_counts TEXT DEFAULT ""\<close>.
  The table is a map from the token to the rest of the row.
\<close>

record bot_row =
  creator_id :: int
  blocked_users :: string
  appeal_counts :: string

text \<open>
  What the program sends. The texts it sends are Chinese or English sentences, some
  with values filled in; each is a constructor of \<open>body\<close>, named by its meaning, with
  the source line of the sentence:
  \<^item> \<open>Verbatim\<close>: the text of a message, passed on as it is (line 529);
  \<^item> \<open>StartNotice\<close>: user name and id of who sent /start, "choose an action" (line 267);
  \<^item> \<open>FailedGetBlocked\<close>, \<open>FailedBlock\<close>, \<open>FailedUnblock\<close> (lines 296, 321, 340);
  \<^item> \<open>NoBannedUsers\<close>, \<open>BanList\<close>: the answers to /getbans (lines 301, 304);
  \<^item> \<open>BanUsage\<close>, \<open>UnbanUsage\<close>, \<open>InvalidID\<close> (lines 311, 330, 316 and 335);
  \<^item> \<open>Banned\<close>: "user id ... has been banned" (lines 324, 456);
  \<^item> \<open>UnbannedCommand\<close>, \<open>UnbannedButton\<close>: "user id ... has been unbanned", in the
    two wordings of lines 343 and 473;
  \<^item> \<open>AppealForward\<close>: "user ... appeals: ..." (line 363);
  \<^item> \<open>AppealLimitReached\<close>: "your appeals have reached the limit, you are banned
    for good" (lines 381, 423);
  \<^item> \<open>AppealPrompt\<close>: "enter your appeal here" (line 431);
  \<^item> \<open>PermanentlyBlocked\<close>: "you are banned for good and cannot send messages"
    (line 492);
  \<^item> \<open>Blocked\<close>: "you are banned and cannot send messages" (line 503).
  The button labels are "ban", "unban" (lines 270, 273) and "hit by mistake? appeal"
  (line 500); a button carries its callback data.
\<close>

datatype body =
    Verbatim string
  | StartNotice string int
  | FailedGetBlocked
  | NoBannedUsers
  | BanList string
  | BanUsage
  | UnbanUsage
  | InvalidID
  | FailedBlock
  | FailedUnblock
  | Banned int
  | UnbannedCommand int
  | UnbannedButton int
  | AppealForward int string
  | AppealLimitReached
  | AppealPrompt
  | PermanentlyBlocked
  | Blocked

datatype label = BanLabel | UnbanLabel | AppealLabel

datatype button = InlineKeyboardButtonData label string

type_synonym keyboard = "button list list"

text \<open>
  The requests the program makes of the platform client: \<open>tgbotapi.NewMessage\<close> (chat
  id, text, and the \<open>ReplyMarkup\<close> set afterwards, if any), \<open>tgbotapi.NewForward\<close>
  (chat id, source chat id, message id) and \<open>tgbotapi.NewCallback\<close> (the id of the
  callback query, with an empty text).
\<close>

datatype chattable =
    NewMessage int body "keyboard option"
  | NewForward int int int
  | NewCallback string

datatype BotAPI = BotAPI (Token: string)

text \<open>
  \<open>sync.RWMutex\<close>, as one running operation sees it: free, held for reading or held
  for writing. The model runs one operation at a time, so the lock is free whenever an
  operation asks for it.
\<close>

datatype lock_mode = Unlocked | RLocked | WLocked

datatype io_call = StoreCall | PlatformCall

text \<open>
  The process: the fields of \<open>BotManager\<close> (\<open>bots\<close>, \<open>creator\<close>, \<open>mu\<close>, and the
  table behind \<open>db\<close>), the goroutines started with \<open>go m.startBot(bot, creatorID)\<close>,
  the requests handed to \<open>bot.Send\<close> and \<open>bot.Request\<close> (each with its bot, whether or
  not the platform then accepted it) and what was logged, in order. The database and the
  platform can fail at any call: \<open>db_faults\<close> and \<open>api_faults\<close> say, call by call,
  whether the next call fails (\<open>Some code\<close>) or not (\<open>None\<close>, and also once the list is
  used up). \<open>io_log\<close> records every call to the database and to the platform with the
  mode in which \<open>mu\<close> was held when the call was made.
\<close>

record world =
  bots :: "string \<rightharpoonup> BotAPI"
  creator :: "string \<rightharpoonup> int"
  mu :: lock_mode
  rows :: "string \<rightharpoonup> bot_row"
  workers :: "(BotAPI \<times> int) list"
  requests :: "(BotAPI \<times> chattable) list"
  logs :: "string list"
  db_faults :: "nat option list"
  api_faults :: "nat option list"
  io_log :: "(io_call \<times> lock_mode) list"

text \<open>
  \<open>log.Printf\<close> and \<open>log.Println\<close>: the format string is recorded, without the
  values filled in.
\<close>

definition logf :: "string \<Rightarrow> world \<Rightarrow> world" where
  "logf fmt w = w\<lparr>logs := logs w @ [fmt]\<rparr>"

subsection \<open>The database calls\<close>

text \<open>Every call to the database: recorded, and failing when the schedule says so.\<close>

definition store_call :: "world \<Rightarrow> nat option \<times> world" where
  "store_call w =
     (case db_faults w of
        [] \<Rightarrow> (None, w\<lparr>io_log := io_log w @ [(StoreCall, mu w)]\<rparr>)
      | f # fs \<Rightarrow> (f, w\<lparr>db_faults := fs, io_log := io_log w @ [(StoreCall, mu w)]\<rparr>))"

text \<open>
  \<open>m.db.QueryRow("SELECT col FROM bots WHERE token = ?", token).Scan(&s)\<close> on a
  variable \<open>s\<close> declared just before: the error and the value of \<open>s\<close> afterwards, which
  is still the empty string when the call failed or found no row.
\<close>

definition QueryRow_Scan ::
  "(bot_row \<Rightarrow> string) \<Rightarrow> string \<Rightarrow> world \<Rightarrow> (error option \<times> string) \<times> world" where
  "QueryRow_Scan col token w =
     (case store_call w of
        (Some e, w') \<Rightarrow> ((Some (DbError e), []), w')
      | (None, w') \<Rightarrow>
          (case rows w' token of
             None \<Rightarrow> ((Some ErrNoRows, []), w')
           | Some r \<Rightarrow> ((None, col r), w')))"

text \<open>
  \<open>m.db.Exec("UPDATE bots SET ... WHERE token = ?", ..., token)\<close>: no error when no
  row has the token, and then no change.
\<close>

definition Exec_UPDATE ::
  "(bot_row \<Rightarrow> bot_row) \<Rightarrow> string \<Rightarrow> world \<Rightarrow> error option \<times> world" where
  "Exec_UPDATE f token w =
     (case store_call w of
        (Some e, w') \<Rightarrow> (Some (DbError e), w')
      | (None, w') \<Rightarrow>
          (case rows w' token of
             None \<Rightarrow> (None, w')
           | Some r \<Rightarrow> (None, w'\<lparr>rows := (rows w')(token \<mapsto> f r)\<rparr>)))"

subsection \<open>The ban and appeal bookkeeping\<close>

text \<open>\<open>getAppealCount\<close> (lines 75 to 94).\<close>

definition getAppealCount :: "string \<Rightarrow> int \<Rightarrow> world \<Rightarrow> int \<times> world" where
  "getAppealCount token userID w =
     (case QueryRow_Scan appeal_counts token w of
        ((err, appealCountsStr), w1) \<Rightarrow>
          if err \<noteq> None \<and> err \<noteq> Some ErrNoRows
          then (0, logf ''Failed to get appeal counts for bot %s: %v'' w1)
          else if appealCountsStr = [] then (0, w1)
          else
            (case json_Unmarshal appealCountsStr of
               None \<Rightarrow> (0, logf ''Failed to unmarshal appeal counts: %v'' w1)
             | Some appealCounts \<Rightarrow> (go_index appealCounts (FormatInt userID), w1)))"

text \<open>\<open>incrementAppealCount\<close> (lines 97 to 129).\<close>

definition incrementAppealCount :: "string \<Rightarrow> int \<Rightarrow> world \<Rightarrow> error option \<times> world" where
  "incrementAppealCount token userID w =
     (case QueryRow_Scan appeal_counts token w of
        ((err, appealCountsStr), w1) \<Rightarrow>
          if err \<noteq> None \<and> err \<noteq> Some ErrNoRows
          then (err, logf ''Failed to get appeal counts for bot %s: %v'' w1)
          else
            (case (if appealCountsStr \<noteq> [] then json_Unmarshal appealCountsStr else Some []) of
               None \<Rightarrow> (Some UnmarshalError, logf ''Failed to unmarshal appeal counts: %v'' w1)
             | Some appealCounts \<Rightarrow>
                 (let userIDStr = FormatInt userID;
                      updatedAppealCounts = json_Marshal (go_incr appealCounts userIDStr)
                  in
                    case Exec_UPDATE (\<lambda>r. r\<lparr>appeal_counts := updatedAppealCounts\<rparr>) token w1 of
                      (Some e, w2) \<Rightarrow>
                        (Some e, logf ''Failed to update appeal counts for bot %s: %v'' w2)
                    | (None, w2) \<Rightarrow> (None, w2))))"

text \<open>\<open>isUserBlocked\<close> (lines 131 to 151).\<close>

definition isUserBlocked :: "string \<Rightarrow> int \<Rightarrow> world \<Rightarrow> bool \<times> world" where
  "isUserBlocked token userID w =
     (case QueryRow_Scan blocked_users token w of
        ((err, blockedUsers), w1) \<Rightarrow>
          if err \<noteq> None \<and> err \<noteq> Some ErrNoRows
          then (False, logf ''Failed to get blocked users for bot %s: %v'' w1)
          else if blockedUsers = [] then (False, w1)
          else (list_ex (\<lambda>idStr. ParseInt idStr = Some userID) (Split blockedUsers), w1))"

text \<open>\<open>blockUser\<close> (lines 154 to 186).\<close>

definition blockUser :: "string \<Rightarrow> int \<Rightarrow> world \<Rightarrow> error option \<times> world" where
  "blockUser token userID w =
     (case QueryRow_Scan blocked_users token w of
        ((err, blockedUsers), w1) \<Rightarrow>
          if err \<noteq> None \<and> err \<noteq> Some ErrNoRows
          then (err, logf ''Failed to get blocked users for bot %s: %v'' w1)
          else if list_ex (\<lambda>idStr. ParseInt idStr = Some userID) (Split blockedUsers)
          then (None, logf ''User ID: %d is already in the block list for bot %s.'' w1)
          else
            (let blockedList =
                   (if blockedUsers \<noteq> [] then Split blockedUsers @ [FormatInt userID]
                    else [FormatInt userID]);
                 newBlockedUsers = Join blockedList
             in
               case Exec_UPDATE (\<lambda>r. r\<lparr>blocked_users := newBlockedUsers\<rparr>) token w1 of
                 (Some e, w2) \<Rightarrow>
                   (Some e, logf ''Failed to add user to block list for bot %s: %v'' w2)
               | (None, w2) \<Rightarrow>
                   (None, logf ''User ID: %d added to the block list for bot %s.'' w2)))"

text \<open>
  \<open>unblockUser\<close> (lines 188 to 252). The loop keeps the entries that parse to another
  id; a decoding error of the appeal counts is logged and the map stays empty.
\<close>

definition unblockUser :: "string \<Rightarrow> int \<Rightarrow> world \<Rightarrow> error option \<times> world" where
  "unblockUser token userID w =
     (case QueryRow_Scan blocked_users token w of
        ((err, blockedUsers), w1) \<Rightarrow>
          if err \<noteq> None \<and> err \<noteq> Some ErrNoRows
          then (err, logf ''Failed to get blocked users for bot %s: %v'' w1)
          else if blockedUsers = []
          then (None, logf ''No blocked users found for bot %s'' w1)
          else
            (let newBlockedList =
                   filter (\<lambda>idStr. case ParseInt idStr of None \<Rightarrow> False | Some i \<Rightarrow> i \<noteq> userID)
                     (Split blockedUsers);
                 newBlockedUsers = Join newBlockedList
             in
               case Exec_UPDATE (\<lambda>r. r\<lparr>blocked_users := newBlockedUsers\<rparr>) token w1 of
                 (Some e, w2) \<Rightarrow>
                   (Some e, logf ''Failed to remove user from block list for bot %s: %v'' w2)
               | (None, w2) \<Rightarrow>
                   (case QueryRow_Scan appeal_counts token w2 of
                      ((err', appealCountsStr), w3) \<Rightarrow>
                        if err' \<noteq> None \<and> err' \<noteq> Some ErrNoRows
                        then (err', logf ''Failed to get appeal counts for bot %s: %v'' w3)
                        else
                          (let decoded =
                                 (if appealCountsStr \<noteq> [] then json_Unmarshal appealCountsStr
                                  else Some []);
                               w4 = (case decoded of
                                       None \<Rightarrow> logf ''Failed to unmarshal appeal counts: %v'' w3
                                     | Some _ \<Rightarrow> w3);
                               appealCounts = (case decoded of None \<Rightarrow> [] | Some m \<Rightarrow> m);
                               userIDStr = FormatInt userID;
                               updatedAppealCounts =
                                 json_Marshal (AList.delete userIDStr appealCounts)
                           in
                             case Exec_UPDATE (\<lambda>r. r\<lparr>appeal_counts := updatedAppealCounts\<rparr>)
                                    token w4 of
                               (Some e, w5) \<Rightarrow>
                                 (Some e,
                                  logf ''Failed to update appeal counts for bot %s: %v'' w5)
                             | (None, w5) \<Rightarrow>
                                 (None,
                                  logf ''User ID: %d removed from the block list and appeal count reset for bot %s.''
                                    w5)))))"

subsection \<open>The platform client\<close>

text \<open>Every call to the platform: recorded, and failing when the schedule says so.\<close>

definition platform_call :: "world \<Rightarrow> nat option \<times> world" where
  "platform_call w =
     (case api_faults w of
        [] \<Rightarrow> (None, w\<lparr>io_log := io_log w @ [(PlatformCall, mu w)]\<rparr>)
      | f # fs \<Rightarrow> (f, w\<lparr>api_faults := fs, io_log := io_log w @ [(PlatformCall, mu w)]\<rparr>))"

text \<open>
  \<open>tgbotapi.NewBotAPI(token)\<close> asks the platform who the token belongs to, and fails
  when the platform does not accept the token or cannot be reached.
\<close>

definition NewBotAPI :: "string \<Rightarrow> world \<Rightarrow> (error + BotAPI) \<times> world" where
  "NewBotAPI token w =
     (case platform_call w of
        (Some e, w') \<Rightarrow> (Inl (ApiError e), w')
      | (None, w') \<Rightarrow> (Inr (BotAPI token), w'))"

text \<open>\<open>bot.Send(c)\<close> and \<open>bot.Request(c)\<close>: the error, if any.\<close>

definition Send :: "BotAPI \<Rightarrow> chattable \<Rightarrow> world \<Rightarrow> error option \<times> world" where
  "Send bot0 c w =
     (case platform_call w of
        (f, w') \<Rightarrow> (map_option ApiError f, w'\<lparr>requests := requests w' @ [(bot0, c)]\<rparr>))"

definition Request :: "BotAPI \<Rightarrow> chattable \<Rightarrow> world \<Rightarrow> error option \<times> world" where
  "Request bot0 c w = Send bot0 c w"

text \<open>
  An incoming \<open>tgbotapi.Message\<close>, with the fields the program reads. \<open>command\<close> holds
  what the library's \<open>IsCommand()\<close>, \<open>Command()\<close> and \<open>CommandArguments()\<close> compute from
  the message: nothing for a message that does not start with a command, otherwise the
  name of the command and its arguments. \<open>reply_to_message\<close> is \<open>ReplyToMessage\<close>, with
  the id of its \<open>ForwardFrom\<close> user when it has one.
\<close>

datatype replied = Replied (ForwardFrom: "int option")

record message =
  message_id :: int
  from_id :: int
  from_user_name :: string
  from_first_name :: string
  from_last_name :: string
  chat_id :: int
  msg_text :: string
  command :: "(string \<times> string) option"
  reply_to_message :: "replied option"

definition IsCommand :: "message \<Rightarrow> bool" where
  "IsCommand msg = (command msg \<noteq> None)"

definition Command :: "message \<Rightarrow> string" where
  "Command msg = (case command msg of None \<Rightarrow> [] | Some (c, a) \<Rightarrow> c)"

definition CommandArguments :: "message \<Rightarrow> string" where
  "CommandArguments msg = (case command msg of None \<Rightarrow> [] | Some (c, a) \<Rightarrow> a)"

record callback_query =
  cq_id :: string
  cq_data :: string

text \<open>\<open>tgbotapi.Update\<close>: \<open>Message\<close> and \<open>CallbackQuery\<close>, each of which may be nil.\<close>

record update =
  upd_message :: "message option"
  upd_callback_query :: "callback_query option"

definition HasPrefix :: "string \<Rightarrow> string \<Rightarrow> bool" where
  "HasPrefix s p = (take (length p) s = p)"

definition TrimPrefix :: "string \<Rightarrow> string \<Rightarrow> string" where
  "TrimPrefix s p = (if HasPrefix s p then drop (length p) s else s)"

subsection \<open>The registry lock\<close>

definition Lock :: "world \<Rightarrow> world" where
  "Lock w = w\<lparr>mu := WLocked\<rparr>"

definition Unlock :: "world \<Rightarrow> world" where
  "Unlock w = w\<lparr>mu := Unlocked\<rparr>"

definition RLock :: "world \<Rightarrow> world" where
  "RLock w = w\<lparr>mu := RLocked\<rparr>"

definition RUnlock :: "world \<Rightarrow> world" where
  "RUnlock w = w\<lparr>mu := Unlocked\<rparr>"

subsection \<open>The relay router\<close>

text \<open>
  \<open>handleIncomingMessage\<close> (lines 482 to 520). \<open>defer m.mu.RUnlock()\<close> releases the
  lock at every return.
\<close>

definition handleIncomingMessage ::
  "BotAPI \<Rightarrow> message \<Rightarrow> int \<Rightarrow> BotAPI \<Rightarrow> string \<Rightarrow> world \<Rightarrow> world" where
  "handleIncomingMessage bot0 msg creatorID botAPI botToken w =
     RUnlock
       (let w0 = RLock w;
            userID = from_id msg
        in
          case isUserBlocked botToken userID w0 of
            (True, w1) \<Rightarrow>
              (let w2 = logf ''User ID: %d is blocked for bot %s, not forwarding message.'' w1
               in
                 case getAppealCount botToken userID w2 of
                   (appealCount, w3) \<Rightarrow>
                     if appealCount \<ge> 3
                     then
                       (case Send botAPI (NewMessage userID PermanentlyBlocked None) w3 of
                          (Some e, w4) \<Rightarrow>
                            logf ''Failed to send blocked message to user: %v'' w4
                        | (None, w4) \<Rightarrow> w4)
                     else
                       (let appealButton =
                              InlineKeyboardButtonData AppealLabel (''appeal_'' @ FormatInt userID);
                            keyboard = [[appealButton]]
                        in
                          case Send botAPI (NewMessage userID Blocked (Some keyboard)) w3 of
                            (Some e, w4) \<Rightarrow>
                              logf ''Failed to send blocked message with appeal button to user: %v'' w4
                          | (None, w4) \<Rightarrow> w4))
          | (False, w1) \<Rightarrow>
              (let w2 = logf ''Forwarding message from user ID: %d to creator ID: %d'' w1
               in
                 case Send bot0 (NewForward creatorID (chat_id msg) (message_id msg)) w2 of
                   (Some e, w3) \<Rightarrow> logf ''Error forwarding message: %v'' w3
                 | (None, w3) \<Rightarrow> logf ''Message forwarded successfully.'' w3))"

text \<open>\<open>handleReplyMessage\<close> (lines 522 to 538).\<close>

definition handleReplyMessage :: "BotAPI \<Rightarrow> message \<Rightarrow> world \<Rightarrow> world" where
  "handleReplyMessage bot0 msg w =
     (case reply_to_message msg of
        Some (Replied (Some originalSenderID)) \<Rightarrow>
          (let w1 = logf ''Attempting to reply to user ID: %d'' w
           in
             case Send bot0 (NewMessage originalSenderID (Verbatim (msg_text msg)) None) w1 of
               (Some e, w2) \<Rightarrow> logf ''Error sending reply message: %v'' w2
             | (None, w2) \<Rightarrow> logf ''Reply sent successfully to user ID: %d'' w2)
      | _ \<Rightarrow> logf ''Message is a reply but no forward information is available.'' w)"

text \<open>
  \<open>handleBotCommands\<close> (lines 254 to 346). Where the source drops the result of
  \<open>bot.Send\<close>, so does the model.
\<close>

definition handleBotCommands :: "BotAPI \<Rightarrow> message \<Rightarrow> int \<Rightarrow> world \<Rightarrow> world" where
  "handleBotCommands bot0 msg creatorID w =
     (let botToken = Token bot0
      in
        if Command msg = ''start'' then
          (let userID = from_id msg;
               userName0 = from_user_name msg;
               userName1 =
                 (if userName0 = [] then from_first_name msg @ '' '' @ from_last_name msg
                  else userName0);
               userName = (if userName1 = '' '' then from_first_name msg else userName1);
               banButton = InlineKeyboardButtonData BanLabel (''ban_'' @ FormatInt userID);
               unbanButton = InlineKeyboardButtonData UnbanLabel (''unban_'' @ FormatInt userID);
               keyboard = [[banButton, unbanButton]];
               startMessage = NewMessage creatorID (StartNotice userName userID) (Some keyboard)
           in
             case Send bot0 startMessage w of
               (Some e, w1) \<Rightarrow> logf ''Failed to send /start message to creator: %v'' w1
             | (None, w1) \<Rightarrow> logf ''Sent /start message to creator for user ID: %d'' w1)
        else if Command msg = ''getbans'' then
          (case QueryRow_Scan blocked_users botToken w of
             ((err, blockedUsers), w1) \<Rightarrow>
               if err \<noteq> None \<and> err \<noteq> Some ErrNoRows
               then
                 snd (Send bot0 (NewMessage creatorID FailedGetBlocked None)
                        (logf ''Failed to get blocked users for bot %s: %v'' w1))
               else if blockedUsers = []
               then snd (Send bot0 (NewMessage creatorID NoBannedUsers None) w1)
               else snd (Send bot0 (NewMessage creatorID (BanList blockedUsers) None) w1))
        else if Command msg = ''ban'' then
          (let args = CommandArguments msg
           in
             if args = [] then snd (Send bot0 (NewMessage creatorID BanUsage None) w)
             else
               (case ParseInt args of
                  None \<Rightarrow> snd (Send bot0 (NewMessage creatorID InvalidID None) w)
                | Some userID \<Rightarrow>
                    (case blockUser botToken userID w of
                       (Some e, w1) \<Rightarrow>
                         snd (Send bot0 (NewMessage creatorID FailedBlock None)
                                (logf ''Failed to block user using /ban command: %v'' w1))
                     | (None, w1) \<Rightarrow>
                         snd (Send bot0 (NewMessage creatorID (Banned userID) None) w1))))
        else if Command msg = ''unban'' then
          (let args = CommandArguments msg
           in
             if args = [] then snd (Send bot0 (NewMessage creatorID UnbanUsage None) w)
             else
               (case ParseInt args of
                  None \<Rightarrow> snd (Send bot0 (NewMessage creatorID InvalidID None) w)
                | Some userID \<Rightarrow>
                    (case unblockUser botToken userID w of
                       (Some e, w1) \<Rightarrow>
                         snd (Send bot0 (NewMessage creatorID FailedUnblock None)
                                (logf ''Failed to unblock user using /unban command: %v'' w1))
                     | (None, w1) \<Rightarrow>
                         snd (Send bot0 (NewMessage creatorID (UnbannedCommand userID) None) w1))))
        else w)"

subsection \<open>The worker of one bot: \<open>startBot\<close> (lines 348 to 480)\<close>

text \<open>
  The worker's local map \<open>appeals\<close> (\<open>map[int64]bool\<close>), and its state: that map and
  the process.
\<close>

type_synonym appeals = "int \<rightharpoonup> bool"

definition awaiting :: "appeals \<Rightarrow> int \<Rightarrow> bool" where
  "awaiting appeals userID = (appeals userID = Some True)"

text \<open>
  The body of \<open>if appeals[userID] { ... continue }\<close> (lines 362 to 387): the message is
  the text of an appeal.
\<close>

definition startBot_appeal ::
  "BotAPI \<Rightarrow> int \<Rightarrow> message \<Rightarrow> appeals \<times> world \<Rightarrow> appeals \<times> world" where
  "startBot_appeal bot0 creatorID msg st =
     (case st of
        (appeals, w) \<Rightarrow>
          (let botToken = Token bot0;
               userID = from_id msg;
               appealText = msg_text msg;
               appealForward = NewMessage creatorID (AppealForward userID appealText) None;
               w1 = (case Send bot0 appealForward w of
                       (Some e, w') \<Rightarrow> logf ''Failed to send appeal message to creator: %v'' w'
                     | (None, w') \<Rightarrow> w');
               w2 = logf ''Received appeal message from user ID: %d, forwarding to creator.'' w1;
               appeals' = appeals(userID := None);
               w3 = (case incrementAppealCount botToken userID w2 of
                       (Some e, w') \<Rightarrow>
                         logf ''Failed to increment appeal count for user %d of bot %s : %v'' w'
                     | (None, w') \<Rightarrow> w')
           in
             case getAppealCount botToken userID w3 of
               (appealCount, w4) \<Rightarrow>
                 if appealCount \<ge> 3
                 then
                   (let w5 = (case blockUser botToken userID w4 of
                                (Some e, w') \<Rightarrow>
                                  logf ''Failed to block user using /ban command: %v'' w'
                              | (None, w') \<Rightarrow> w');
                        w6 = (case Send bot0 (NewMessage userID AppealLimitReached None) w5 of
                                (Some e, w') \<Rightarrow>
                                  logf ''Failed to send no appeal message to user %d of bot %s : %v'' w'
                              | (None, w') \<Rightarrow> w')
                    in (appeals', w6))
                 else (appeals', w4)))"

text \<open>The branch \<open>update.Message != nil\<close> of the loop body (lines 357 to 402).\<close>

definition startBot_message ::
  "BotAPI \<Rightarrow> int \<Rightarrow> message \<Rightarrow> appeals \<times> world \<Rightarrow> appeals \<times> world" where
  "startBot_message bot0 creatorID msg st =
     (case st of
        (appeals, w) \<Rightarrow>
          (let botToken = Token bot0;
               w0 = logf ''Received a message from user ID: %d in chat ID: %d, text: %s'' w;
               userID = from_id msg
           in
             if awaiting appeals userID then startBot_appeal bot0 creatorID msg (appeals, w0)
             else if IsCommand msg \<and> from_id msg = creatorID
               then (appeals, handleBotCommands bot0 msg creatorID w0)
             else if IsCommand msg
               then (appeals, handleBotCommands bot0 msg creatorID w0)
             else if from_id msg = creatorID
               then (appeals, handleReplyMessage bot0 msg w0)
             else (appeals, handleIncomingMessage bot0 msg creatorID bot0 botToken w0)))"

text \<open>The branch \<open>update.CallbackQuery != nil\<close> of the loop body (lines 403 to 478).\<close>

definition startBot_callback ::
  "BotAPI \<Rightarrow> int \<Rightarrow> callback_query \<Rightarrow> appeals \<times> world \<Rightarrow> appeals \<times> world" where
  "startBot_callback bot0 creatorID cq st =
     (case st of
        (appeals, w) \<Rightarrow>
          (let botToken = Token bot0
           in
             case Request bot0 (NewCallback (cq_id cq)) w of
               (Some e, w1) \<Rightarrow> (appeals, logf ''Error processing callback: %v'' w1)
             | (None, w1) \<Rightarrow>
                 (let callbackData = cq_data cq;
                      w2 = logf ''Received a callback query with data: %s'' w1
                  in
                    if HasPrefix callbackData ''appeal_'' then
                      (case ParseInt (TrimPrefix callbackData ''appeal_'') of
                         None \<Rightarrow> (appeals, logf ''Invalid userID in callback: %v'' w2)
                       | Some userID \<Rightarrow>
                           (case getAppealCount botToken userID w2 of
                              (appealCount, w3) \<Rightarrow>
                                if appealCount \<ge> 3
                                then
                                  (case Send bot0 (NewMessage userID AppealLimitReached None) w3 of
                                     (Some e, w4) \<Rightarrow>
                                       (appeals,
                                        logf ''Failed to send no appeal message to user %d of bot %s : %v'' w4)
                                   | (None, w4) \<Rightarrow> (appeals, w4))
                                else
                                  (case Send bot0 (NewMessage userID AppealPrompt None) w3 of
                                     (Some e, w4) \<Rightarrow>
                                       (appeals,
                                        logf ''Failed to send appeal message to user: %v'' w4)
                                   | (None, w4) \<Rightarrow> (appeals(userID \<mapsto> True), w4))))
                    else if HasPrefix callbackData ''ban_'' then
                      (case ParseInt (TrimPrefix callbackData ''ban_'') of
                         None \<Rightarrow> (appeals, logf ''Invalid userID in callback: %v'' w2)
                       | Some userID \<Rightarrow>
                           (let w3 = logf ''Creator requested to ban user ID: %d for bot %s'' w2
                            in
                              case blockUser botToken userID w3 of
                                (Some e, w4) \<Rightarrow> (appeals, logf ''Failed to block user: %v'' w4)
                              | (None, w4) \<Rightarrow>
                                  (case Send bot0 (NewMessage creatorID (Banned userID) None) w4 of
                                     (Some e, w5) \<Rightarrow>
                                       (appeals,
                                        logf ''Failed to send ban confirmation message to creator: %v'' w5)
                                   | (None, w5) \<Rightarrow> (appeals, w5))))
                    else if HasPrefix callbackData ''unban_'' then
                      (case ParseInt (TrimPrefix callbackData ''unban_'') of
                         None \<Rightarrow> (appeals, logf ''Invalid userID in callback: %v'' w2)
                       | Some userID \<Rightarrow>
                           (let w3 = logf ''Creator requested to unban user ID: %d for bot %s'' w2
                            in
                              case unblockUser botToken userID w3 of
                                (Some e, w4) \<Rightarrow> (appeals, logf ''Failed to unblock user: %v'' w4)
                              | (None, w4) \<Rightarrow>
                                  (case Send bot0 (NewMessage creatorID (UnbannedButton userID) None) w4 of
                                     (Some e, w5) \<Rightarrow>
                                       (appeals,
                                        logf ''Failed to send unban confirmation message to creator: %v'' w5)
                                   | (None, w5) \<Rightarrow> (appeals, w5))))
                    else (appeals, w2))))"

text \<open>One turn of the loop \<open>for update := range updates\<close>.\<close>

definition startBot_step ::
  "BotAPI \<Rightarrow> int \<Rightarrow> appeals \<times> world \<Rightarrow> update \<Rightarrow> appeals \<times> world" where
  "startBot_step bot0 creatorID st u =
     (case upd_message u of
        Some msg \<Rightarrow> startBot_message bot0 creatorID msg st
      | None \<Rightarrow>
          (case upd_callback_query u of
             Some cq \<Rightarrow> startBot_callback bot0 creatorID cq st
           | None \<Rightarrow> st))"

text \<open>
  The worker on the updates it has received so far, in the order of their receipt:
  \<open>appeals\<close> starts empty.
\<close>

definition startBot :: "BotAPI \<Rightarrow> int \<Rightarrow> update list \<Rightarrow> world \<Rightarrow> appeals \<times> world" where
  "startBot bot0 creatorID updates w =
     foldl (startBot_step bot0 creatorID)
       (Map.empty, logf ''Starting bot with creator ID: %d'' w) updates"

subsection \<open>The registry: \<open>AddBot\<close> and \<open>DeleteBot\<close>\<close>

text \<open>\<open>SELECT EXISTS(SELECT 1 FROM bots WHERE token = ?)\<close>, scanned into a bool.\<close>

definition QueryRow_EXISTS :: "string \<Rightarrow> world \<Rightarrow> (error + bool) \<times> world" where
  "QueryRow_EXISTS token w =
     (case store_call w of
        (Some e, w') \<Rightarrow> (Inl (DbError e), w')
      | (None, w') \<Rightarrow> (Inr (rows w' token \<noteq> None), w'))"

text \<open>
  \<open>INSERT INTO bots (token, creator_id) VALUES (?, ?)\<close>: the other two columns take
  their default, the empty string; \<open>token\<close> is the primary key.
\<close>

definition Exec_INSERT :: "string \<Rightarrow> int \<Rightarrow> world \<Rightarrow> error option \<times> world" where
  "Exec_INSERT token creatorID w =
     (case store_call w of
        (Some e, w') \<Rightarrow> (Some (DbError e), w')
      | (None, w') \<Rightarrow>
          (case rows w' token of
             Some r \<Rightarrow> (Some ErrConstraint, w')
           | None \<Rightarrow>
               (None,
                w'\<lparr>rows := (rows w')(token \<mapsto>
                      \<lparr>creator_id = creatorID, blocked_users = [], appeal_counts = []\<rparr>)\<rparr>)))"

text \<open>\<open>DELETE FROM bots WHERE token = ?\<close>.\<close>

definition Exec_DELETE :: "string \<Rightarrow> world \<Rightarrow> error option \<times> world" where
  "Exec_DELETE token w =
     (case store_call w of
        (Some e, w') \<Rightarrow> (Some (DbError e), w')
      | (None, w') \<Rightarrow> (None, w'\<lparr>rows := (rows w')(token := None)\<rparr>))"

text \<open>\<open>go m.startBot(bot, creatorID)\<close>: one more worker.\<close>

definition go_startBot :: "BotAPI \<Rightarrow> int \<Rightarrow> world \<Rightarrow> world" where
  "go_startBot bot0 creatorID w = w\<lparr>workers := workers w @ [(bot0, creatorID)]\<rparr>"

text \<open>\<open>AddBot\<close> (lines 32 to 72).\<close>

definition AddBot :: "string \<Rightarrow> int \<Rightarrow> world \<Rightarrow> error option \<times> world" where
  "AddBot token creatorID w =
     (let w0 = logf ''Attempting to add bot with token: %s, creator ID: %d'' w
      in
        case NewBotAPI token w0 of
          (Inl err, w1) \<Rightarrow> (Some err, logf ''Failed to create bot API for token %s: %v'' w1)
        | (Inr bot0, w1) \<Rightarrow>
            (let w2 = logf ''Bot API created successfully for token: %s'' w1;
                 w3 = Lock w2;
                 w4 = w3\<lparr>bots := (bots w3)(token \<mapsto> bot0)\<rparr>;
                 w5 = w4\<lparr>creator := (creator w4)(token \<mapsto> creatorID)\<rparr>;
                 w6 = Unlock w5;
                 w7 = logf ''Bot %s added to the manager's in-memory storage.'' w6;
                 w8 = go_startBot bot0 creatorID w7;
                 w9 = logf ''Bot %s started.'' w8
             in
               case QueryRow_EXISTS token w9 of
                 (Inl err, w10) \<Rightarrow>
                   (Some err, logf ''Failed to check bot existence for token %s: %v'' w10)
               | (Inr exists, w10) \<Rightarrow>
                   if exists
                   then (None, logf ''Bot with token %s already exists in the database.'' w10)
                   else
                     (case Exec_INSERT token creatorID w10 of
                        (Some err, w11) \<Rightarrow>
                          (Some err,
                           logf ''Failed to insert bot with token %s into database: %v'' w11)
                      | (None, w11) \<Rightarrow>
                          (None,
                           logf ''Bot with token %s added to the database successfully.'' w11))))"

text \<open>
  \<open>DeleteBot\<close> (lines 540 to 555). \<open>defer m.mu.Unlock()\<close> releases the lock when the
  function returns.
\<close>

definition DeleteBot :: "string \<Rightarrow> world \<Rightarrow> world" where
  "DeleteBot token w =
     (let w0 = logf ''Attempting to delete bot with token: %s'' w;
          w1 = Lock w0;
          w2 = w1\<lparr>bots := (bots w1)(token := None)\<rparr>;
          w3 = w2\<lparr>creator := (creator w2)(token := None)\<rparr>;
          w4 = logf ''Bot with token %s removed from manager's in-memory storage.'' w3
      in
        Unlock
          (case Exec_DELETE token w4 of
             (Some err, w5) \<Rightarrow>
               logf ''Failed to delete bot with token %s from database: %v'' w5
           | (None, w5) \<Rightarrow>
               logf ''Bot with token %s deleted from the database successfully.'' w5))"

subsection \<open>Notions used to state and prove the properties\<close>

text \<open>The outcome the failure schedule holds for the next call.\<close>

definition next_fault :: "nat option list \<Rightarrow> nat option" where
  "next_fault fs = (case fs of [] \<Rightarrow> None | f # _ \<Rightarrow> f)"

text \<open>Two states with the same table and the same failures ahead in the database.\<close>

definition same_store :: "world \<Rightarrow> world \<Rightarrow> bool" where
  "same_store w w' = (rows w = rows w' \<and> db_faults w = db_faults w')"

text \<open>
  The maps \<open>json_Unmarshal\<close> returns and the program builds from them: distinct keys
  without a character that needs an escape, and values in the 64-bit range.
\<close>

definition wf_map :: "go_map \<Rightarrow> bool" where
  "wf_map m =
     (distinct (map fst m)
      \<and> list_all (\<lambda>kv. list_all key_char (fst kv) \<and> in_int64 (snd kv)) m)"

fun jstate_ok :: "jstate \<Rightarrow> bool" where
  "jstate_ok JStart = True"
| "jstate_ok (JOpen m) = wf_map m"
| "jstate_ok (JKey m k) = (wf_map m \<and> list_all key_char k)"
| "jstate_ok (JColon m k) = (wf_map m \<and> list_all key_char k)"
| "jstate_ok (JValue m k) = (wf_map m \<and> list_all key_char k)"
| "jstate_ok (JMinus m k) = (wf_map m \<and> list_all key_char k)"
| "jstate_ok (JNum m k neg ds) = (wf_map m \<and> list_all key_char k)"
| "jstate_ok (JAfter m) = wf_map m"
| "jstate_ok (JComma m) = wf_map m"
| "jstate_ok (JEnd m) = wf_map m"
| "jstate_ok JErr = True"

text \<open>
  What the program's reads find in a row: the appeal count \<open>getAppealCount\<close> computes
  from the column \<open>appeal_counts\<close>, whether \<open>isUserBlocked\<close> finds the user in the column
  \<open>blocked_users\<close>, the map \<open>incrementAppealCount\<close> and \<open>unblockUser\<close> work on, and the
  list \<open>unblockUser\<close> writes back.
\<close>

definition count_in :: "string \<Rightarrow> int \<Rightarrow> int" where
  "count_in s u =
     (if s = [] then 0
      else case json_Unmarshal s of None \<Rightarrow> 0 | Some m \<Rightarrow> go_index m (FormatInt u))"

definition listed_in :: "string \<Rightarrow> int \<Rightarrow> bool" where
  "listed_in s u = (s \<noteq> [] \<and> list_ex (\<lambda>idStr. ParseInt idStr = Some u) (Split s))"

definition decoded :: "string \<Rightarrow> go_map" where
  "decoded s = (if s = [] then [] else case json_Unmarshal s of None \<Rightarrow> [] | Some m \<Rightarrow> m)"

definition unlisted :: "string \<Rightarrow> int \<Rightarrow> string" where
  "unlisted s u =
     Join (filter (\<lambda>idStr. case ParseInt idStr of None \<Rightarrow> False | Some i \<Rightarrow> i \<noteq> u) (Split s))"

text \<open>
  The appeal count of a user as the program reads it when its read of the database does
  not fail.
\<close>

definition appeal_count_now :: "world \<Rightarrow> string \<Rightarrow> int \<Rightarrow> int" where
  "appeal_count_now w token userID = fst (getAppealCount token userID (w\<lparr>db_faults := []\<rparr>))"

text \<open>The bot has no row, or its row has a blocked list that is not empty.\<close>

definition list_nonempty :: "world \<Rightarrow> string \<Rightarrow> bool" where
  "list_nonempty w token = (case rows w token of None \<Rightarrow> True | Some r \<Rightarrow> blocked_users r \<noteq> [])"

text \<open>
  Any number of appeal submissions, one after the other: each message is taken by the
  worker as the text of an appeal (the body of \<open>if appeals[userID]\<close>).
\<close>

definition appeal_submissions ::
  "BotAPI \<Rightarrow> int \<Rightarrow> message list \<Rightarrow> appeals \<times> world \<Rightarrow> appeals \<times> world" where
  "appeal_submissions bot0 creatorID msgs st =
     foldl (\<lambda>st msg. startBot_appeal bot0 creatorID msg st) st msgs"

subsection \<open>Example states\<close>

text \<open>
  A bot whose table says that user 42 is blocked with three appeals: with a working
  database the two reads say so, with a failing read they say "not blocked" and 0.
\<close>

definition blocked_world :: "nat option list \<Rightarrow> world" where
  "blocked_world faults =
     \<lparr>bots = Map.empty, creator = Map.empty, mu = Unlocked,
      rows = [''T'' \<mapsto> \<lparr>creator_id = 100, blocked_users = ''7,42'',
                          appeal_counts = CHR ''{'' # CHR 0x22 # ''42'' @ CHR 0x22 # '':3}''\<rparr>],
      workers = [], requests = [], logs = [], db_faults = faults, api_faults = [],
      io_log = []\<rparr>"

text \<open>
  The table of one bot with token \<open>T\<close> and operator 100, with the given columns and
  failures ahead; and a plain text message from a user.
\<close>

definition example_world ::
  "string \<Rightarrow> string \<Rightarrow> nat option list \<Rightarrow> nat option list \<Rightarrow> world" where
  "example_world blocked counts dbf apif =
     \<lparr>bots = Map.empty, creator = Map.empty, mu = Unlocked,
      rows = [''T'' \<mapsto> \<lparr>creator_id = 100, blocked_users = blocked, appeal_counts = counts\<rparr>],
      workers = [], requests = [], logs = [], db_faults = dbf, api_faults = apif,
      io_log = []\<rparr>"

definition text_message :: "int \<Rightarrow> string \<Rightarrow> message" where
  "text_message uid txt =
     \<lparr>message_id = 7, from_id = uid, from_user_name = ''user'', from_first_name = ''A'',
      from_last_name = ''B'', chat_id = uid, msg_text = txt, command = None,
      reply_to_message = None\<rparr>"

text \<open>
  A process with no bot, the updates a worker receives (a command, a plain message, a
  button pressed), and a run of the worker of bot \<open>T\<close>, registered by operator 100: the
  operator bans user 42, the user writes and gets the appeal button, presses it and is
  asked for the text of the appeal; the operator unbans the user, and only then does the
  user send the text, which the worker still takes as an appeal.
\<close>

definition empty_world :: world where
  "empty_world =
     \<lparr>bots = Map.empty, creator = Map.empty, mu = Unlocked, rows = Map.empty,
      workers = [], requests = [], logs = [], db_faults = [], api_faults = [], io_log = []\<rparr>"

definition command_message :: "int \<Rightarrow> string \<Rightarrow> string \<Rightarrow> update" where
  "command_message uid c a =
     \<lparr>upd_message = Some ((text_message uid (CHR ''/'' # c @ '' '' @ a))\<lparr>command := Some (c, a)\<rparr>),
      upd_callback_query = None\<rparr>"

definition plain_message :: "int \<Rightarrow> string \<Rightarrow> update" where
  "plain_message uid txt = \<lparr>upd_message = Some (text_message uid txt), upd_callback_query = None\<rparr>"

definition button_press :: "string \<Rightarrow> update" where
  "button_press d =
     \<lparr>upd_message = None, upd_callback_query = Some \<lparr>cq_id = ''q'', cq_data = d\<rparr>\<rparr>"

definition stale_appeal_run :: "update list" where
  "stale_appeal_run =
     [command_message 100 ''ban'' ''42'',
      plain_message 42 ''hello'',
      button_press ''appeal_42'',
      command_message 100 ''unban'' ''42'',
      plain_message 42 ''please'']"

definition stale_world :: world where
  "stale_world =
     snd (startBot (BotAPI ''T'') 100 stale_appeal_run (snd (AddBot ''T'' 100 empty_world)))"

section \<open>Properties\<close>

subsection \<open>Decimal numerals\<close>

lemma digit_char_props:
  assumes "d < 10"
  shows "is_digit (digit_char d)" and "digit_val (digit_char d) = d"
    and "key_char (digit_char d)" and "(digit_char d = CHR ''0'') = (d = 0)"
proof -
  from assms have "d = 0 \<or> d = 1 \<or> d = 2 \<or> d = 3 \<or> d = 4 \<or> d = 5 \<or> d = 6 \<or> d = 7
      \<or> d = 8 \<or> d = 9"
    by arith
  then show "is_digit (digit_char d)" and "digit_val (digit_char d) = d"
    and "key_char (digit_char d)" and "(digit_char d = CHR ''0'') = (d = 0)"
    by (auto simp: digit_char_def is_digit_def digit_val_def key_char_def)
qed

lemma is_digit_not_special:
  "is_digit c \<Longrightarrow> \<not> is_ws c \<and> c \<noteq> CHR ''-'' \<and> c \<noteq> CHR '','' \<and> c \<noteq> CHR ''}'' \<and> c \<noteq> CHR 0x22 \<and> key_char c"
  by (auto simp: is_digit_def is_ws_def key_char_def)

lemma digits_ne: "digits n \<noteq> []"
  by (subst digits.simps) simp

lemma digits_all: "list_all is_digit (digits n)"
proof (induction n rule: digits.induct)
  case (1 n)
  show ?case
  proof (cases "n < 10")
    case True
    then show ?thesis by (subst digits.simps) (simp add: digit_char_props)
  next
    case False
    with 1 show ?thesis by (subst digits.simps) (simp add: digit_char_props)
  qed
qed

lemma digits_val_snoc: "digits_val (ds @ [c]) = 10 * digits_val ds + digit_val c"
  by (simp add: digits_val_def)

lemma digits_val_digits: "digits_val (digits n) = n"
proof (induction n rule: digits.induct)
  case (1 n)
  show ?case
  proof (cases "n < 10")
    case True
    then show ?thesis by (subst digits.simps) (simp add: digits_val_def digit_char_props)
  next
    case False
    with 1 show ?thesis
      by (subst digits.simps) (simp add: digits_val_snoc digit_char_props)
  qed
qed

lemma digits_leading: "hd (digits n) = CHR ''0'' \<Longrightarrow> digits n = ''0''"
proof (induction n rule: digits.induct)
  case (1 n)
  show ?case
  proof (cases "n < 10")
    case True
    with 1(2) show ?thesis
      by (subst digits.simps, subst (asm) digits.simps) (simp add: digit_char_props digit_char_def)
  next
    case False
    then have "hd (digits n) = hd (digits (n div 10))"
      by (subst digits.simps) (simp add: digits_ne)
    with 1 False have "digits (n div 10) = ''0''" by simp
    then have "digits_val (digits (n div 10)) = 0" by (simp add: digits_val_def digit_val_def)
    then have "n div 10 = 0" by (simp add: digits_val_digits)
    with False show ?thesis by simp
  qed
qed

lemma FormatInt_key_chars: "list_all key_char (FormatInt i)"
proof -
  have "list_all key_char (digits n)" for n
    using digits_all [of n] by (simp add: list_all_iff is_digit_not_special)
  then show ?thesis by (simp add: FormatInt_def key_char_def)
qed

lemma FormatInt_ne: "FormatInt i \<noteq> []"
  by (simp add: FormatInt_def digits_ne)

lemma FormatInt_inj: "FormatInt a = FormatInt b \<Longrightarrow> a = b"
proof -
  assume eq: "FormatInt a = FormatInt b"
  have nd: "hd (digits n) \<noteq> CHR ''-''" for n
    using digits_all [of n] digits_ne [of n] is_digit_not_special [of "hd (digits n)"]
    by (cases "digits n") simp_all
  have inj: "digits m = digits n \<Longrightarrow> m = n" for m n
    by (metis digits_val_digits)
  show ?thesis
  proof (cases "a < 0"; cases "b < 0")
    assume "a < 0" "b < 0"
    with eq have "nat (- a) = nat (- b)" by (simp add: FormatInt_def inj)
    with \<open>a < 0\<close> \<open>b < 0\<close> show ?thesis by simp
  next
    assume "a < 0" "\<not> b < 0"
    with eq have "CHR ''-'' # digits (nat (- a)) = digits (nat b)"
      by (simp add: FormatInt_def)
    then have "hd (digits (nat b)) = CHR ''-''"
      by (cases "digits (nat b)") simp_all
    with nd [of "nat b"] show ?thesis by simp
  next
    assume "\<not> a < 0" "b < 0"
    with eq have "digits (nat a) = CHR ''-'' # digits (nat (- b))"
      by (simp add: FormatInt_def)
    then have "hd (digits (nat a)) = CHR ''-''"
      by simp
    with nd [of "nat a"] show ?thesis by simp
  next
    assume "\<not> a < 0" "\<not> b < 0"
    with eq have "nat a = nat b" by (simp add: FormatInt_def inj)
    with \<open>\<not> a < 0\<close> \<open>\<not> b < 0\<close> show ?thesis by simp
  qed
qed

subsection \<open>Split and Join\<close>

lemma Split_ne: "Split s \<noteq> []"
  by (induction s) (auto split: list.splits)

lemma Split_no_comma: "p \<in> set (Split s) \<Longrightarrow> CHR '','' \<notin> set p"
  by (induction s arbitrary: p) (auto split: list.splits if_splits)

lemma Split_plain: "CHR '','' \<notin> set p \<Longrightarrow> Split p = [p]"
  by (induction p) auto

lemma Split_append_comma:
  "CHR '','' \<notin> set p \<Longrightarrow> Split (p @ CHR '','' # s) = p # Split s"
  by (induction p) (auto simp: Split_ne split: list.splits)

lemma Split_Join:
  "ps \<noteq> [] \<Longrightarrow> \<forall>p\<in>set ps. CHR '','' \<notin> set p \<Longrightarrow> Split (Join ps) = ps"
  by (induction ps rule: Join.induct) (simp_all add: Split_plain Split_append_comma)

lemma Join_eq_Nil: "Join ps = [] \<Longrightarrow> ps = [] \<or> ps = [[]]"
  by (induction ps rule: Join.induct) auto

subsection \<open>Maps that can be written and read back\<close>

lemma set_update:
  "kv \<in> set (AList.update k v m) \<Longrightarrow> kv = (k, v) \<or> kv \<in> set m"
  by (induction m) (auto split: if_splits)

lemma set_delete: "kv \<in> set (AList.delete k m) \<Longrightarrow> kv \<in> set m"
  by (induction m) (auto split: if_splits)

lemma wf_map_Nil: "wf_map []"
  by (simp add: wf_map_def)

lemma wf_map_update:
  "wf_map m \<Longrightarrow> list_all key_char k \<Longrightarrow> in_int64 v \<Longrightarrow> wf_map (AList.update k v m)"
  unfolding wf_map_def list_all_iff
  by (auto simp: distinct_update dest!: set_update)

lemma wf_map_delete: "wf_map m \<Longrightarrow> wf_map (AList.delete k m)"
  unfolding wf_map_def list_all_iff
  by (auto simp: distinct_delete dest!: set_delete)

lemma in_int64_wrap64: "in_int64 (wrap64 i)"
proof -
  have "0 \<le> (i + 9223372036854775808) mod 18446744073709551616"
    and "(i + 9223372036854775808) mod 18446744073709551616 < 18446744073709551616"
    by simp_all
  then show ?thesis
    by (simp add: in_int64_def wrap64_def int64_min_def int64_max_def)
qed

lemma wrap64_id: "in_int64 i \<Longrightarrow> wrap64 i = i"
  by (simp add: in_int64_def wrap64_def int64_min_def int64_max_def)

lemma wf_map_go_incr: "wf_map m \<Longrightarrow> wf_map (go_incr m (FormatInt u))"
  by (simp add: go_incr_def wf_map_update FormatInt_key_chars in_int64_wrap64)

lemma json_after_ok: "wf_map m \<Longrightarrow> jstate_ok (json_after m c)"
  by (simp add: json_after_def)

lemma json_step_ok: "jstate_ok s \<Longrightarrow> jstate_ok (json_step s c)"
  by (cases s) (simp_all add: wf_map_Nil json_after_ok wf_map_update)

lemma json_run_ok: "jstate_ok s \<Longrightarrow> jstate_ok (foldl json_step s cs)"
  by (induction cs arbitrary: s) (simp_all add: json_step_ok)

lemma json_Unmarshal_wf: "json_Unmarshal s = Some m \<Longrightarrow> wf_map m"
  using json_run_ok [of JStart s]
  by (auto simp: json_Unmarshal_def split: jstate.splits)

subsection \<open>Reading back what \<open>json_Marshal\<close> wrote\<close>

lemma scan_key:
  "list_all key_char k \<Longrightarrow> foldl json_step (JKey m k0) k = JKey m (k0 @ k)"
  by (induction k arbitrary: k0) (simp_all add: key_char_def)

lemma scan_digits:
  "list_all is_digit es \<Longrightarrow> ds \<noteq> [] \<Longrightarrow> (es \<noteq> [] \<longrightarrow> hd ds \<noteq> CHR ''0'') \<Longrightarrow>
   foldl json_step (JNum m k neg ds) es = JNum m k neg (ds @ es)"
proof (induction es arbitrary: ds)
  case Nil
  then show ?case by simp
next
  case (Cons e es)
  from Cons.prems have "ds \<noteq> ''0''" by auto
  with Cons.prems have "json_step (JNum m k neg ds) e = JNum m k neg (ds @ [e])"
    by simp
  moreover have "foldl json_step (JNum m k neg (ds @ [e])) es = JNum m k neg ((ds @ [e]) @ es)"
    using Cons.prems by (intro Cons.IH) auto
  ultimately show ?case by simp
qed

lemma scan_digits_of:
  "foldl json_step (JNum m k neg [hd (digits n)]) (tl (digits n)) = JNum m k neg (digits n)"
proof -
  have "list_all is_digit (tl (digits n))"
    using digits_all [of n] by (cases "digits n") simp_all
  moreover have "tl (digits n) \<noteq> [] \<longrightarrow> hd [hd (digits n)] \<noteq> CHR ''0''"
    using digits_leading [of n] by auto
  ultimately have "foldl json_step (JNum m k neg [hd (digits n)]) (tl (digits n)) =
      JNum m k neg ([hd (digits n)] @ tl (digits n))"
    by (intro scan_digits) simp_all
  then show ?thesis by (simp add: digits_ne)
qed

lemma scan_digits_start:
  "foldl json_step (JValue m k) (digits n) = JNum m k False (digits n)"
  "foldl json_step (JMinus m k) (digits n) = JNum m k True (digits n)"
proof -
  obtain d ds where ds: "digits n = d # ds"
    using digits_ne [of n] by (cases "digits n") auto
  then have d: "is_digit d" using digits_all [of n] by simp
  from scan_digits_of [of m k False n] ds d
  show "foldl json_step (JValue m k) (digits n) = JNum m k False (digits n)"
    by (simp add: is_digit_not_special)
  from scan_digits_of [of m k True n] ds d
  show "foldl json_step (JMinus m k) (digits n) = JNum m k True (digits n)"
    by simp
qed

lemma scan_FormatInt:
  "foldl json_step (JValue m k) (FormatInt v) = JNum m k (v < 0) (digits (nat \<bar>v\<bar>))"
  by (simp add: FormatInt_def scan_digits_start is_ws_def)

lemma json_number_FormatInt: "json_number (v < 0) (digits (nat \<bar>v\<bar>)) = v"
  by (simp add: json_number_def digits_val_digits)

lemma scan_member:
  assumes "list_all key_char k" and "in_int64 v" and "c = CHR '','' \<or> c = CHR ''}''"
  shows "foldl json_step (JKey m []) (k @ CHR 0x22 # CHR '':'' # FormatInt v @ [c]) =
         json_after (AList.update k v m) c"
proof -
  have "foldl json_step (JKey m []) (k @ CHR 0x22 # CHR '':'' # FormatInt v @ [c]) =
        foldl json_step (JValue m k) (FormatInt v @ [c])"
    using assms(1) by (simp add: scan_key is_ws_def)
  also have "\<dots> = json_step (JNum m k (v < 0) (digits (nat \<bar>v\<bar>))) c"
    by (simp add: scan_FormatInt)
  also have "\<dots> = json_after (AList.update k v m) c"
    using assms(2,3) by (auto simp: json_number_FormatInt is_digit_def)
  finally show ?thesis .
qed

lemma Join_Cons_quote:
  "Join (json_member kv # ps) = CHR 0x22 # tl (Join (json_member kv # ps))"
  by (cases ps) (simp_all add: json_member_def)

lemma scan_members:
  "xs \<noteq> [] \<Longrightarrow>
   list_all (\<lambda>kv. list_all key_char (fst kv) \<and> in_int64 (snd kv)) xs \<Longrightarrow>
   foldl json_step (JKey m []) (tl (Join (map json_member xs)) @ ''}'') =
     JEnd (foldl (\<lambda>m kv. AList.update (fst kv) (snd kv) m) m xs)"
proof (induction xs arbitrary: m)
  case Nil
  then show ?case by simp
next
  case (Cons x xs)
  obtain k v where x: "x = (k, v)" by (cases x)
  with Cons.prems have k: "list_all key_char k" and v: "in_int64 v" by simp_all
  show ?case
  proof (cases xs)
    case Nil
    with x scan_member [OF k v, of "CHR ''}''" m] show ?thesis
      by (simp add: json_member_def json_after_def is_ws_def)
  next
    case (Cons y ys)
    let ?rest = "Join (map json_member xs)"
    have rest: "?rest = CHR 0x22 # tl ?rest"
      using Cons Join_Cons_quote [of y "map json_member ys"] by simp
    have "tl (Join (map json_member (x # xs))) @ ''}'' =
          (k @ CHR 0x22 # CHR '':'' # FormatInt v @ [CHR '','']) @ ?rest @ ''}''"
      using Cons x by (simp add: json_member_def)
    then have "foldl json_step (JKey m []) (tl (Join (map json_member (x # xs))) @ ''}'') =
          foldl json_step (JComma (AList.update k v m)) (?rest @ ''}'')"
      using scan_member [OF k v, of "CHR '',''" m]
      by (simp add: json_after_def is_ws_def)
    also have "\<dots> = foldl json_step (JKey (AList.update k v m) []) (tl ?rest @ ''}'')"
      by (subst rest) (simp add: is_ws_def)
    also have "\<dots> = JEnd (foldl (\<lambda>m kv. AList.update (fst kv) (snd kv) m) (AList.update k v m) xs)"
      using Cons.prems Cons by (intro Cons.IH) simp_all
    finally show ?thesis using x by simp
  qed
qed

lemma map_of_foldl_update:
  "distinct (map fst xs) \<Longrightarrow>
   map_of (foldl (\<lambda>m kv. AList.update (fst kv) (snd kv) m) m xs) = map_of m ++ map_of xs"
proof (induction xs arbitrary: m)
  case Nil
  then show ?case by simp
next
  case (Cons x xs)
  let ?f = "\<lambda>m kv. AList.update (fst kv) (snd kv) m"
  from Cons.prems have "fst x \<notin> dom (map_of xs)"
    by (simp add: dom_map_of_conv_image_fst)
  then have swap: "(map_of m)(fst x \<mapsto> snd x) ++ map_of xs = (map_of m ++ map_of xs)(fst x \<mapsto> snd x)"
    by (rule map_add_upd_left)
  have "map_of (foldl ?f m (x # xs)) = map_of (AList.update (fst x) (snd x) m) ++ map_of xs"
    using Cons.prems Cons.IH [of "AList.update (fst x) (snd x) m"] by simp
  also have "\<dots> = (map_of m ++ map_of xs)(fst x \<mapsto> snd x)"
    using swap by (simp only: update_conv')
  also have "\<dots> = map_of m ++ (map_of xs)(fst x \<mapsto> snd x)"
    by (simp only: map_add_upd)
  also have "(map_of xs)(fst x \<mapsto> snd x) = map_of (x # xs)"
    by (cases x) simp
  finally show ?case .
qed

lemma map_of_sort_key:
  "distinct (map fst m) \<Longrightarrow>
   distinct (map fst (sort_key fst m)) \<and> map_of (sort_key fst m) = map_of m"
proof -
  assume d: "distinct (map fst m)"
  then have d': "distinct (map fst (sort_key fst m))"
    by (simp add: distinct_map)
  with d show ?thesis
    by (simp add: map_of_inject_set)
qed

lemma json_Unmarshal_Marshal:
  assumes "wf_map m"
  shows "\<exists>m'. json_Unmarshal (json_Marshal m) = Some m' \<and> map_of m' = map_of m"
proof (cases m)
  case Nil
  then show ?thesis
    by (simp add: json_Unmarshal_def json_Marshal_def is_ws_def)
next
  case (Cons a list)
  let ?xs = "sort_key fst m"
  have ne: "?xs \<noteq> []"
    using Cons by (metis length_sort list.size(3) list.distinct(1) length_0_conv)
  have good: "list_all (\<lambda>kv. list_all key_char (fst kv) \<and> in_int64 (snd kv)) ?xs"
    using assms by (simp add: wf_map_def list_all_iff)
  let ?j = "Join (map json_member ?xs)"
  obtain y ys where ys: "?xs = y # ys" using ne by (cases ?xs) auto
  have j: "?j = CHR 0x22 # tl ?j"
    using ys Join_Cons_quote [of y "map json_member ys"] by simp
  have "foldl json_step JStart (json_Marshal m) = foldl json_step (JOpen []) (?j @ ''}'')"
    by (simp add: json_Marshal_def is_ws_def)
  also have "\<dots> = foldl json_step (JKey [] []) (tl ?j @ ''}'')"
    by (subst j) (simp add: is_ws_def)
  also have "\<dots> = JEnd (foldl (\<lambda>m kv. AList.update (fst kv) (snd kv) m) [] ?xs)"
    using ne good by (rule scan_members)
  finally have "json_Unmarshal (json_Marshal m) =
      Some (foldl (\<lambda>m kv. AList.update (fst kv) (snd kv) m) [] ?xs)"
    by (simp add: json_Unmarshal_def)
  moreover have "map_of (foldl (\<lambda>m kv. AList.update (fst kv) (snd kv) m) [] ?xs) = map_of m"
    using assms map_of_sort_key [of m] by (simp add: wf_map_def map_of_foldl_update)
  ultimately show ?thesis by simp
qed

lemma json_Marshal_ne: "json_Marshal m \<noteq> []"
  by (simp add: json_Marshal_def)

text \<open>What a reader of the column finds after a writer stored \<open>json_Marshal m\<close>.\<close>

lemma go_index_Marshal:
  "wf_map m \<Longrightarrow>
   (case json_Unmarshal (json_Marshal m) of None \<Rightarrow> 0 | Some m' \<Rightarrow> go_index m' k) = go_index m k"
  using json_Unmarshal_Marshal [of m] by (auto simp: go_index_def)

subsection \<open>The calls to the database and to the platform\<close>

lemma store_call_eq:
  "store_call w =
     (next_fault (db_faults w),
      w\<lparr>db_faults := tl (db_faults w), io_log := io_log w @ [(StoreCall, mu w)]\<rparr>)"
  by (cases "db_faults w") (simp_all add: store_call_def next_fault_def)

lemma platform_call_eq:
  "platform_call w =
     (next_fault (api_faults w),
      w\<lparr>api_faults := tl (api_faults w), io_log := io_log w @ [(PlatformCall, mu w)]\<rparr>)"
  by (cases "api_faults w") (simp_all add: platform_call_def next_fault_def)

lemma Send_eq:
  "Send b c w =
     (map_option ApiError (next_fault (api_faults w)),
      w\<lparr>api_faults := tl (api_faults w), io_log := io_log w @ [(PlatformCall, mu w)],
        requests := requests w @ [(b, c)]\<rparr>)"
  by (simp add: Send_def platform_call_eq)

lemmas prim = store_call_eq QueryRow_Scan_def Exec_UPDATE_def logf_def

lemma same_store_refl [simp]: "same_store w w"
  by (simp add: same_store_def)

lemma same_store_upd [simp]:
  "same_store (w\<lparr>mu := m\<rparr>) w' = same_store w w'"
  "same_store w (w'\<lparr>mu := m\<rparr>) = same_store w w'"
  "same_store (w\<lparr>logs := l\<rparr>) w' = same_store w w'"
  "same_store w (w'\<lparr>logs := l\<rparr>) = same_store w w'"
  "same_store (w\<lparr>io_log := i\<rparr>) w' = same_store w w'"
  "same_store w (w'\<lparr>io_log := i\<rparr>) = same_store w w'"
  "same_store (w\<lparr>requests := q\<rparr>) w' = same_store w w'"
  "same_store w (w'\<lparr>requests := q\<rparr>) = same_store w w'"
  "same_store (w\<lparr>api_faults := a\<rparr>) w' = same_store w w'"
  "same_store w (w'\<lparr>api_faults := a\<rparr>) = same_store w w'"
  by (simp_all add: same_store_def)



lemma isUserBlocked_frame:
  "requests (snd (isUserBlocked t u w)) = requests w"
  "mu (snd (isUserBlocked t u w)) = mu w"
  "api_faults (snd (isUserBlocked t u w)) = api_faults w"
  "io_log (snd (isUserBlocked t u w)) = io_log w @ [(StoreCall, mu w)]"
  "rows (snd (isUserBlocked t u w)) = rows w"
  by (simp_all add: isUserBlocked_def prim split: option.splits prod.splits)

lemma getAppealCount_frame:
  "requests (snd (getAppealCount t u w)) = requests w"
  "mu (snd (getAppealCount t u w)) = mu w"
  "api_faults (snd (getAppealCount t u w)) = api_faults w"
  "io_log (snd (getAppealCount t u w)) = io_log w @ [(StoreCall, mu w)]"
  "rows (snd (getAppealCount t u w)) = rows w"
  by (simp_all add: getAppealCount_def prim split: option.splits prod.splits)


lemma NewBotAPI_eq:
  "NewBotAPI token w =
     ((case next_fault (api_faults w) of Some e \<Rightarrow> Inl (ApiError e) | None \<Rightarrow> Inr (BotAPI token)),
      w\<lparr>api_faults := tl (api_faults w), io_log := io_log w @ [(PlatformCall, mu w)]\<rparr>)"
  by (simp add: NewBotAPI_def platform_call_eq split: option.splits)

lemma store_call_fault:
  "db_faults w = Some e # fs \<Longrightarrow>
   store_call w = (Some e, w\<lparr>db_faults := fs, io_log := io_log w @ [(StoreCall, mu w)]\<rparr>)"
  by (simp add: store_call_def)

lemma QueryRow_Scan_fault:
  "db_faults w = Some e # fs \<Longrightarrow>
   QueryRow_Scan col token w =
     ((Some (DbError e), []), w\<lparr>db_faults := fs, io_log := io_log w @ [(StoreCall, mu w)]\<rparr>)"
  by (simp add: QueryRow_Scan_def store_call_fault)

subsection \<open>Reads of the ban state fail open\<close>

text \<open>
  Claim C10. When the database read behind the check fails with an error other than
  \<open>sql.ErrNoRows\<close>, \<open>isUserBlocked\<close> returns false and \<open>getAppealCount\<close> returns 0,
  whatever the table holds; both return a plain value, so no error reaches the caller,
  and the table is left as it was.
\<close>

theorem ban_reads_fail_open:
  assumes "db_faults w = Some e # fs"
  shows "fst (isUserBlocked token userID w) = False
       \<and> fst (getAppealCount token userID w) = 0
       \<and> rows (snd (isUserBlocked token userID w)) = rows w
       \<and> rows (snd (getAppealCount token userID w)) = rows w"
  using assms
  by (simp add: isUserBlocked_def getAppealCount_def QueryRow_Scan_fault logf_def)

lemmas library_defs =
  ParseInt_def FormatInt_def digits.simps digit_char_def digits_val_def digit_val_def
  is_digit_def int64_min_def int64_max_def in_int64_def wrap64_def
  json_Marshal_def json_member_def json_Unmarshal_def json_after_def json_number_def
  is_ws_def key_char_def go_index_def go_incr_def

lemmas store_defs = store_call_def QueryRow_Scan_def Exec_UPDATE_def logf_def

theorem ban_reads_fail_open_witness:
  "db_faults (blocked_world [Some 1]) = Some 1 # []
   \<and> fst (isUserBlocked ''T'' 42 (blocked_world [Some 1])) = False
   \<and> fst (getAppealCount ''T'' 42 (blocked_world [Some 1])) = 0
   \<and> fst (isUserBlocked ''T'' 42 (blocked_world [])) = True
   \<and> fst (getAppealCount ''T'' 42 (blocked_world [])) = 3"
proof -
  have f: "db_faults (blocked_world [Some 1]) = Some 1 # []"
    by (simp add: blocked_world_def)
  have b: "fst (isUserBlocked ''T'' 42 (blocked_world [])) = True"
    by (simp add: isUserBlocked_def blocked_world_def store_defs library_defs)
  have c: "fst (getAppealCount ''T'' 42 (blocked_world [])) = 3"
    by (simp add: getAppealCount_def blocked_world_def store_defs library_defs)
  from ban_reads_fail_open [OF f, of "''T''" 42] f b c show ?thesis
    by simp
qed

subsection \<open>What the reads of the ban state return\<close>

lemma next_fault_Nil [simp]: "next_fault [] = None"
  by (simp add: next_fault_def)

lemma getAppealCount_fst:
  "fst (getAppealCount t u w) =
     (case next_fault (db_faults w) of
        Some e \<Rightarrow> 0
      | None \<Rightarrow> (case rows w t of None \<Rightarrow> 0 | Some r \<Rightarrow> count_in (appeal_counts r) u))"
  by (simp add: getAppealCount_def prim count_in_def split: option.splits)

lemma isUserBlocked_fst:
  "fst (isUserBlocked t u w) =
     (case next_fault (db_faults w) of
        Some e \<Rightarrow> False
      | None \<Rightarrow> (case rows w t of None \<Rightarrow> False | Some r \<Rightarrow> listed_in (blocked_users r) u))"
  by (simp add: isUserBlocked_def prim listed_in_def split: option.splits)

lemma appeal_count_now_eq:
  "appeal_count_now w t u =
     (case rows w t of None \<Rightarrow> 0 | Some r \<Rightarrow> count_in (appeal_counts r) u)"
  by (simp add: appeal_count_now_def getAppealCount_fst)

lemma wf_decoded: "wf_map (decoded s)"
  by (auto simp: decoded_def wf_map_Nil json_Unmarshal_wf split: option.splits)

lemma count_in_decoded: "count_in s u = go_index (decoded s) (FormatInt u)"
  by (simp add: count_in_def decoded_def go_index_def split: option.splits)

lemma count_in_Marshal: "wf_map m \<Longrightarrow> count_in (json_Marshal m) u = go_index m (FormatInt u)"
  using go_index_Marshal [of m "FormatInt u"]
  by (simp add: count_in_def json_Marshal_ne)

lemma ParseInt_Nil: "ParseInt [] = None"
  by (simp add: ParseInt_def)

lemma Join_ne: "p \<in> set ps \<Longrightarrow> p \<noteq> [] \<Longrightarrow> Join ps \<noteq> []"
  using Join_eq_Nil [of ps] by auto

lemma not_listed_unlisted: "\<not> listed_in (unlisted s u) u"
proof -
  let ?fl = "filter (\<lambda>idStr. case ParseInt idStr of None \<Rightarrow> False | Some i \<Rightarrow> i \<noteq> u) (Split s)"
  show ?thesis
  proof (cases "?fl = []")
    case True
    then show ?thesis by (simp add: listed_in_def unlisted_def)
  next
    case False
    have "\<forall>p\<in>set ?fl. CHR '','' \<notin> set p"
      using Split_no_comma [of _ s] by auto
    with False have "Split (Join ?fl) = ?fl" by (rule Split_Join)
    then show ?thesis
      by (auto simp: listed_in_def unlisted_def list_ex_iff)
  qed
qed

subsection \<open>What the three mutations do to the table\<close>

lemma Join_snoc_ne: "p \<noteq> [] \<Longrightarrow> Join (ps @ [p]) \<noteq> []"
  by (rule Join_ne [of p]) simp_all

lemma not_listed_Nil: "\<not> list_ex (\<lambda>idStr. ParseInt idStr = Some u) (Split [])"
  by (simp add: ParseInt_Nil)

lemmas mut = prim Let_def Join_snoc_ne FormatInt_ne ParseInt_Nil

lemma blockUser_rows:
  "rows (snd (blockUser t u w)) = rows w
   \<or> (\<exists>r. rows w t = Some r
        \<and> rows (snd (blockUser t u w)) =
            (rows w)(t \<mapsto> r\<lparr>blocked_users :=
               Join ((if blocked_users r \<noteq> [] then Split (blocked_users r) else []) @
                     [FormatInt u])\<rparr>))"
proof (cases "rows w t")
  case None
  then show ?thesis
    by (simp add: blockUser_def mut split: option.splits)
next
  case (Some r)
  then show ?thesis
    by (cases "blocked_users r = []") (simp_all add: blockUser_def mut split: option.splits)
qed

lemma blockUser_success:
  "fst (blockUser t u w) = None \<Longrightarrow>
   (case rows (snd (blockUser t u w)) t of None \<Rightarrow> True | Some r \<Rightarrow> blocked_users r \<noteq> [])"
proof (cases "rows w t")
  case None
  then show ?thesis
    by (simp add: blockUser_def mut split: option.splits)
next
  case (Some r)
  assume ok: "fst (blockUser t u w) = None"
  show ?thesis
  proof (cases "blocked_users r = []")
    case True
    with Some ok show ?thesis
      by (simp add: blockUser_def mut split: option.splits if_splits)
  next
    case False
    with Some ok show ?thesis
      by (simp add: blockUser_def mut split: option.splits if_splits)
  qed
qed

lemma incrementAppealCount_rows:
  "rows (snd (incrementAppealCount t u w)) = rows w
   \<or> (\<exists>r. rows w t = Some r
        \<and> rows (snd (incrementAppealCount t u w)) =
            (rows w)(t \<mapsto> r\<lparr>appeal_counts :=
               json_Marshal (go_incr (decoded (appeal_counts r)) (FormatInt u))\<rparr>))"
proof (cases "rows w t")
  case None
  then show ?thesis
    by (simp add: incrementAppealCount_def mut decoded_def split: option.splits)
next
  case (Some r)
  then show ?thesis
    by (cases "appeal_counts r = []")
      (simp_all add: incrementAppealCount_def mut decoded_def split: option.splits)
qed

lemma incrementAppealCount_done:
  assumes "next_fault (db_faults w) = None" and "next_fault (tl (db_faults w)) = None"
    and "rows w t = Some r"
    and "appeal_counts r = [] \<or> json_Unmarshal (appeal_counts r) \<noteq> None"
  shows "rows (snd (incrementAppealCount t u w)) =
           (rows w)(t \<mapsto> r\<lparr>appeal_counts :=
              json_Marshal (go_incr (decoded (appeal_counts r)) (FormatInt u))\<rparr>)"
  using assms
  by (cases "appeal_counts r = []")
    (auto simp: incrementAppealCount_def mut decoded_def split: option.splits)

lemma unblockUser_rows:
  "rows (snd (unblockUser t u w)) = rows w
   \<or> (\<exists>r. rows w t = Some r
        \<and> rows (snd (unblockUser t u w)) =
            (rows w)(t \<mapsto> r\<lparr>blocked_users := unlisted (blocked_users r) u\<rparr>))
   \<or> (\<exists>r. rows w t = Some r
        \<and> rows (snd (unblockUser t u w)) =
            (rows w)(t \<mapsto> r\<lparr>blocked_users := unlisted (blocked_users r) u,
               appeal_counts := json_Marshal (AList.delete (FormatInt u) (decoded (appeal_counts r)))\<rparr>))"
proof (cases "rows w t")
  case None
  then show ?thesis
    by (simp add: unblockUser_def mut split: option.splits)
next
  case (Some r)
  then show ?thesis
    by (cases "appeal_counts r = []"; cases "blocked_users r = []")
      (simp_all add: unblockUser_def mut decoded_def unlisted_def split: option.splits)
qed

lemma unblockUser_success:
  assumes "fst (unblockUser t u w) = None" and "rows w t = Some r" and "blocked_users r \<noteq> []"
  shows "rows (snd (unblockUser t u w)) =
            (rows w)(t \<mapsto> r\<lparr>blocked_users := unlisted (blocked_users r) u,
               appeal_counts := json_Marshal (AList.delete (FormatInt u) (decoded (appeal_counts r)))\<rparr>)"
  using assms
  by (cases "appeal_counts r = []")
    (simp_all add: unblockUser_def mut decoded_def unlisted_def split: option.splits if_splits)

lemma unblockUser_no_row:
  "rows w t = None \<Longrightarrow> rows (snd (unblockUser t u w)) = rows w"
  by (simp add: unblockUser_def mut split: option.splits)

subsection \<open>The appeal count under the three mutations\<close>

lemma go_index_go_incr:
  "go_index (go_incr m k) k' = (if k' = k then wrap64 (go_index m k + 1) else go_index m k')"
  by (simp add: go_index_def go_incr_def update_conv')

lemma go_index_delete:
  "go_index (AList.delete k m) k' = (if k' = k then 0 else go_index m k')"
  by (simp add: go_index_def delete_conv')

lemma go_index_in_int64: "wf_map m \<Longrightarrow> in_int64 (go_index m k)"
proof (cases "map_of m k")
  case None
  then show ?thesis by (simp add: go_index_def in_int64_def int64_min_def int64_max_def)
next
  case (Some v)
  assume "wf_map m"
  moreover from Some have "(k, v) \<in> set m" by (rule map_of_SomeD)
  ultimately have "in_int64 v" by (auto simp: wf_map_def list_all_iff)
  with Some show ?thesis by (simp add: go_index_def)
qed

lemma count_in_in_int64: "in_int64 (count_in s u)"
  by (simp add: count_in_decoded go_index_in_int64 wf_decoded)

lemma in_int64_0: "in_int64 0"
  by (simp add: in_int64_def int64_min_def int64_max_def)

lemma appeal_count_now_in_int64: "in_int64 (appeal_count_now w t u)"
  by (cases "rows w t") (simp_all add: appeal_count_now_eq count_in_in_int64 in_int64_0)

lemma wrap64_succ:
  "in_int64 c \<Longrightarrow> wrap64 (c + 1) = (if c = int64_max then int64_min else c + 1)"
  by (simp add: wrap64_def in_int64_def int64_min_def int64_max_def)

lemma count_after_incr:
  "count_in (json_Marshal (go_incr (decoded s) (FormatInt u))) u' =
     (if u' = u then wrap64 (count_in s u + 1) else count_in s u')"
proof -
  have "count_in (json_Marshal (go_incr (decoded s) (FormatInt u))) u' =
        go_index (go_incr (decoded s) (FormatInt u)) (FormatInt u')"
    by (rule count_in_Marshal) (simp add: wf_map_go_incr wf_decoded)
  also have "\<dots> = (if u' = u then wrap64 (count_in s u + 1) else count_in s u')"
    using FormatInt_inj [of u' u] by (auto simp: go_index_go_incr count_in_decoded)
  finally show ?thesis .
qed

lemma count_after_delete:
  "count_in (json_Marshal (AList.delete (FormatInt u) (decoded s))) u' =
     (if u' = u then 0 else count_in s u')"
proof -
  have "count_in (json_Marshal (AList.delete (FormatInt u) (decoded s))) u' =
        go_index (AList.delete (FormatInt u) (decoded s)) (FormatInt u')"
    by (rule count_in_Marshal) (simp add: wf_map_delete wf_decoded)
  also have "\<dots> = (if u' = u then 0 else count_in s u')"
    using FormatInt_inj [of u' u] by (auto simp: go_index_delete count_in_decoded)
  finally show ?thesis .
qed

lemma count_now_row:
  "rows w t = Some r \<Longrightarrow> appeal_count_now w t u = count_in (appeal_counts r) u"
  by (simp add: appeal_count_now_eq)

lemma count_now_upd:
  "rows w' = (rows w)(t \<mapsto> r') \<Longrightarrow>
   appeal_count_now w' token userID =
     (if token = t then count_in (appeal_counts r') userID else appeal_count_now w token userID)"
  by (simp add: appeal_count_now_eq)

lemma count_now_same: "rows w' = rows w \<Longrightarrow> appeal_count_now w' t u = appeal_count_now w t u"
  by (simp add: appeal_count_now_eq)

lemma blockUser_count:
  "appeal_count_now (snd (blockUser t u w)) token userID = appeal_count_now w token userID"
proof -
  from blockUser_rows [of t u w] show ?thesis
  proof (elim disjE exE conjE)
    assume "rows (snd (blockUser t u w)) = rows w"
    then show ?thesis by (rule count_now_same)
  next
    fix r
    assume r: "rows w t = Some r"
      and "rows (snd (blockUser t u w)) =
        (rows w)(t \<mapsto> r\<lparr>blocked_users :=
           Join ((if blocked_users r \<noteq> [] then Split (blocked_users r) else []) @ [FormatInt u])\<rparr>)"
    from count_now_upd [OF this(2), of token userID] r show ?thesis
      by (simp add: count_now_row)
  qed
qed


lemma incrementAppealCount_count:
  "appeal_count_now (snd (incrementAppealCount t u w)) token userID =
     appeal_count_now w token userID
   \<or> t = token \<and> u = userID
     \<and> appeal_count_now (snd (incrementAppealCount t u w)) token userID =
         wrap64 (appeal_count_now w token userID + 1)"
proof -
  let ?w' = "snd (incrementAppealCount t u w)"
  from incrementAppealCount_rows [of t u w]
  consider (same) "rows ?w' = rows w"
    | (upd) r where "rows w t = Some r"
        "rows ?w' = (rows w)(t \<mapsto> r\<lparr>appeal_counts :=
           json_Marshal (go_incr (decoded (appeal_counts r)) (FormatInt u))\<rparr>)"
    by blast
  then show ?thesis
  proof cases
    case same
    then have "appeal_count_now ?w' token userID = appeal_count_now w token userID"
      by (rule count_now_same)
    then show ?thesis ..
  next
    case upd
    show ?thesis
    proof (cases "token = t")
      case False
      with count_now_upd [OF upd(2), of token userID]
      have "appeal_count_now ?w' token userID = appeal_count_now w token userID"
        by simp
      then show ?thesis ..
    next
      case True
      have old: "appeal_count_now w t userID = count_in (appeal_counts r) userID"
        using upd(1) by (rule count_now_row)
      have c1: "appeal_count_now ?w' t userID =
          count_in (json_Marshal (go_incr (decoded (appeal_counts r)) (FormatInt u))) userID"
        using count_now_upd [OF upd(2), of t userID] by simp
      show ?thesis
      proof (cases "userID = u")
        case False
        with c1 have "appeal_count_now ?w' t userID = count_in (appeal_counts r) userID"
          by (simp add: count_after_incr)
        with old True have "appeal_count_now ?w' token userID = appeal_count_now w token userID"
          by simp
        then show ?thesis ..
      next
        case u: True
        with c1 have "appeal_count_now ?w' t u = wrap64 (count_in (appeal_counts r) u + 1)"
          by (simp add: count_after_incr)
        with old u True
        have "appeal_count_now ?w' token userID = wrap64 (appeal_count_now w token userID + 1)"
          by simp
        with u True show ?thesis by simp
      qed
    qed
  qed
qed

lemma unblockUser_count:
  "appeal_count_now (snd (unblockUser t u w)) token userID = appeal_count_now w token userID
   \<or> t = token \<and> u = userID \<and> appeal_count_now (snd (unblockUser t u w)) token userID = 0"
proof -
  let ?w' = "snd (unblockUser t u w)"
  from unblockUser_rows [of t u w]
  consider (same) "rows ?w' = rows w"
    | (list) r where "rows w t = Some r"
        "rows ?w' = (rows w)(t \<mapsto> r\<lparr>blocked_users := unlisted (blocked_users r) u\<rparr>)"
    | (both) r where "rows w t = Some r"
        "rows ?w' = (rows w)(t \<mapsto> r\<lparr>blocked_users := unlisted (blocked_users r) u,
           appeal_counts := json_Marshal (AList.delete (FormatInt u) (decoded (appeal_counts r)))\<rparr>)"
    by blast
  then show ?thesis
  proof cases
    case same
    then have "appeal_count_now ?w' token userID = appeal_count_now w token userID"
      by (rule count_now_same)
    then show ?thesis ..
  next
    case list
    have old: "appeal_count_now w t userID = count_in (appeal_counts r) userID"
      using list(1) by (rule count_now_row)
    have "appeal_count_now ?w' token userID = appeal_count_now w token userID"
    proof (cases "token = t")
      case False
      with count_now_upd [OF list(2), of token userID] show ?thesis by simp
    next
      case True
      have "appeal_count_now ?w' t userID = count_in (appeal_counts r) userID"
        using count_now_upd [OF list(2), of t userID] by simp
      with old True show ?thesis by simp
    qed
    then show ?thesis ..
  next
    case both
    have old: "appeal_count_now w t userID = count_in (appeal_counts r) userID"
      using both(1) by (rule count_now_row)
    show ?thesis
    proof (cases "token = t")
      case False
      with count_now_upd [OF both(2), of token userID]
      have "appeal_count_now ?w' token userID = appeal_count_now w token userID"
        by simp
      then show ?thesis ..
    next
      case True
      have c1: "appeal_count_now ?w' t userID =
          count_in (json_Marshal (AList.delete (FormatInt u) (decoded (appeal_counts r)))) userID"
        using count_now_upd [OF both(2), of t userID] by simp
      show ?thesis
      proof (cases "userID = u")
        case False
        with c1 have "appeal_count_now ?w' t userID = count_in (appeal_counts r) userID"
          by (simp add: count_after_delete)
        with old True have "appeal_count_now ?w' token userID = appeal_count_now w token userID"
          by simp
        then show ?thesis ..
      next
        case u: True
        with c1 have "appeal_count_now ?w' t u = 0"
          by (simp add: count_after_delete)
        with u True show ?thesis by simp
      qed
    qed
  qed
qed

lemma unblockUser_count_success:
  assumes "fst (unblockUser t u w) = None" and "rows w t = Some r" and "blocked_users r \<noteq> []"
  shows "appeal_count_now (snd (unblockUser t u w)) t u = 0"
proof -
  have "appeal_count_now (snd (unblockUser t u w)) t u =
      count_in (json_Marshal (AList.delete (FormatInt u) (decoded (appeal_counts r)))) u"
    using count_now_upd [OF unblockUser_success [OF assms], of t u] by simp
  then show ?thesis by (simp add: count_after_delete)
qed

subsection \<open>The router on a message from a blocked user\<close>


lemmas eval_defs = library_defs store_defs example_world_def text_message_def


subsection \<open>Replies of the operator\<close>



subsection \<open>Registration\<close>

text \<open>
  Claim C5. When \<open>tgbotapi.NewBotAPI\<close> fails for the token, \<open>AddBot\<close> returns that
  error and creates nothing: the two registry maps, the list of workers and the table
  are as before, and the only call made is the one to the platform.
\<close>

theorem AddBot_invalid_credential:
  assumes "fst (NewBotAPI token w) = Inl err"
  shows "fst (AddBot token creatorID w) = Some err
       \<and> bots (snd (AddBot token creatorID w)) = bots w
       \<and> creator (snd (AddBot token creatorID w)) = creator w
       \<and> workers (snd (AddBot token creatorID w)) = workers w
       \<and> rows (snd (AddBot token creatorID w)) = rows w
       \<and> io_log (snd (AddBot token creatorID w)) = io_log w @ [(PlatformCall, mu w)]"
  using assms
  by (simp add: AddBot_def NewBotAPI_eq logf_def Let_def split: option.splits)

theorem AddBot_invalid_credential_witness:
  "fst (NewBotAPI ''bad'' (example_world [] [] [] [Some 401])) = Inl (ApiError 401)
   \<and> fst (AddBot ''bad'' 100 (example_world [] [] [] [Some 401])) = Some (ApiError 401)
   \<and> bots (snd (AddBot ''bad'' 100 (example_world [] [] [] [Some 401]))) ''bad'' = None
   \<and> workers (snd (AddBot ''bad'' 100 (example_world [] [] [] [Some 401]))) = []
   \<and> rows (snd (AddBot ''bad'' 100 (example_world [] [] [] [Some 401]))) ''bad'' = None"
proof -
  let ?w = "example_world [] [] [] [Some 401]"
  have h: "fst (NewBotAPI ''bad'' ?w) = Inl (ApiError 401)"
    by (simp add: NewBotAPI_def platform_call_def example_world_def)
  have w: "bots ?w ''bad'' = None" "workers ?w = []" "rows ?w ''bad'' = None"
    by (simp_all add: example_world_def)
  from AddBot_invalid_credential [OF h, of 100] h w show ?thesis
    by simp
qed

text \<open>
  Claim C6. When the table already has a row for the token and the credential is
  accepted, \<open>AddBot\<close> writes nothing (the row, with its stored creator id, blocked list
  and appeal counts, is as before), starts a worker for the token all the same, and
  returns success unless its existence query fails in the database, in which case it
  returns that error.
\<close>

theorem AddBot_existing_record:
  assumes "rows w token = Some r" and "fst (NewBotAPI token w) = Inr b"
  shows "rows (snd (AddBot token creatorID w)) = rows w
       \<and> workers (snd (AddBot token creatorID w)) = workers w @ [(BotAPI token, creatorID)]
       \<and> fst (AddBot token creatorID w) = map_option DbError (next_fault (db_faults w))"
  using assms
  by (simp add: AddBot_def NewBotAPI_eq logf_def Let_def Lock_def Unlock_def
      go_startBot_def QueryRow_EXISTS_def store_call_eq split: option.splits)

theorem AddBot_existing_record_witness:
  "rows (example_world ''42'' [] [] []) ''T'' =
     Some \<lparr>creator_id = 100, blocked_users = ''42'', appeal_counts = []\<rparr>
   \<and> fst (NewBotAPI ''T'' (example_world ''42'' [] [] [])) = Inr (BotAPI ''T'')
   \<and> fst (AddBot ''T'' 555 (example_world ''42'' [] [] [])) = None
   \<and> rows (snd (AddBot ''T'' 555 (example_world ''42'' [] [] []))) ''T'' =
       Some \<lparr>creator_id = 100, blocked_users = ''42'', appeal_counts = []\<rparr>
   \<and> workers (snd (AddBot ''T'' 555 (example_world ''42'' [] [] []))) = [(BotAPI ''T'', 555)]"
proof -
  let ?w = "example_world ''42'' [] [] []"
  have r: "rows ?w ''T'' = Some \<lparr>creator_id = 100, blocked_users = ''42'', appeal_counts = []\<rparr>"
    by (simp add: example_world_def)
  have h: "fst (NewBotAPI ''T'' ?w) = Inr (BotAPI ''T'')"
    by (simp add: NewBotAPI_def platform_call_def example_world_def)
  have w: "workers ?w = []" "db_faults ?w = []"
    by (simp_all add: example_world_def)
  from AddBot_existing_record [OF r h, of 555] r h w show ?thesis
    by (simp add: next_fault_def)
qed

subsection \<open>The registry lock and the calls made while it is held\<close>

text \<open>
  Claim C9 does not hold of the code. \<open>handleIncomingMessage\<close> takes the read lock
  first and releases it on return, so its read of the blocked list and its request to
  the platform are made with the lock held; \<open>DeleteBot\<close> deletes the row with the write
  lock held. (\<open>AddBot\<close> releases the lock before it calls the database.)
\<close>

theorem lock_held_across_io:
  "(\<exists>rest. io_log (handleIncomingMessage bot0 msg creatorID botAPI botToken w) =
       io_log w @ (StoreCall, RLocked) # rest \<and> (PlatformCall, RLocked) \<in> set rest)
   \<and> io_log (DeleteBot token w) = io_log w @ [(StoreCall, WLocked)]"
proof -
  let ?u = "from_id msg"
  obtain b w1 where r1: "isUserBlocked botToken ?u (RLock w) = (b, w1)"
    by (cases "isUserBlocked botToken ?u (RLock w)")
  have i1: "io_log w1 = io_log w @ [(StoreCall, RLocked)]" and m1: "mu w1 = RLocked"
    using isUserBlocked_frame(4) [of botToken ?u "RLock w"]
      isUserBlocked_frame(2) [of botToken ?u "RLock w"] r1
    by (simp_all add: RLock_def)
  let ?w2 = "logf ''User ID: %d is blocked for bot %s, not forwarding message.'' w1"
  obtain c w3 where r3: "getAppealCount botToken ?u ?w2 = (c, w3)"
    by (cases "getAppealCount botToken ?u ?w2")
  have i3: "io_log w3 = io_log w @ [(StoreCall, RLocked), (StoreCall, RLocked)]"
    and m3: "mu w3 = RLocked"
    using getAppealCount_frame(4) [of botToken ?u ?w2]
      getAppealCount_frame(2) [of botToken ?u ?w2] r3 i1 m1
    by (simp_all add: logf_def)
  have "\<exists>rest. io_log (handleIncomingMessage bot0 msg creatorID botAPI botToken w) =
       io_log w @ (StoreCall, RLocked) # rest \<and> (PlatformCall, RLocked) \<in> set rest"
    using r1 r3 i1 m1 i3 m3
    by (cases b)
      (simp_all add: handleIncomingMessage_def Let_def Send_eq logf_def RUnlock_def
        split: option.splits)
  moreover have "io_log (DeleteBot token w) = io_log w @ [(StoreCall, WLocked)]"
    by (simp add: DeleteBot_def Exec_DELETE_def store_call_eq Lock_def Unlock_def logf_def
        Let_def split: option.splits)
  ultimately show ?thesis by simp
qed

subsection \<open>How the appeal count changes\<close>

lemmas run_defs =
  startBot_def startBot_step_def startBot_message_def startBot_callback_def startBot_appeal_def
  handleBotCommands_def handleIncomingMessage_def handleReplyMessage_def
  blockUser_def unblockUser_def incrementAppealCount_def getAppealCount_def isUserBlocked_def
  AddBot_def NewBotAPI_def QueryRow_EXISTS_def Exec_INSERT_def go_startBot_def
  Send_def Request_def platform_call_def Lock_def Unlock_def RLock_def RUnlock_def
  IsCommand_def Command_def CommandArguments_def HasPrefix_def TrimPrefix_def awaiting_def
  empty_world_def command_message_def plain_message_def button_press_def stale_appeal_run_def

lemma stale_world_store:
  "rows stale_world =
     [''T'' \<mapsto> \<lparr>creator_id = 100, blocked_users = [], appeal_counts = json_Marshal [(''42'', 1)]\<rparr>]"
  "db_faults stale_world = []"
  by (simp_all add: stale_world_def run_defs eval_defs Let_def)

text \<open>
  Claim C7, as amended. Of the three operations on the ban record, \<open>blockUser\<close> never
  changes the appeal count of any user; \<open>incrementAppealCount\<close> changes only the count
  of its own bot and user, and then raises it by exactly one (from the largest 64-bit
  integer the increment wraps to the smallest); \<open>unblockUser\<close> changes only the count
  of its own bot and user, and then sets it to 0, and it does set it to 0 whenever it
  returns success and the blocked list it read was not empty.
\<close>

theorem appeal_count_changes:
  "appeal_count_now (snd (blockUser t u w)) token userID = appeal_count_now w token userID
   \<and> (appeal_count_now (snd (incrementAppealCount t u w)) token userID =
          appeal_count_now w token userID
        \<or> t = token \<and> u = userID
          \<and> appeal_count_now (snd (incrementAppealCount t u w)) token userID =
              (if appeal_count_now w token userID = int64_max then int64_min
               else appeal_count_now w token userID + 1))
   \<and> (appeal_count_now (snd (unblockUser t u w)) token userID = appeal_count_now w token userID
        \<or> t = token \<and> u = userID
          \<and> appeal_count_now (snd (unblockUser t u w)) token userID = 0)
   \<and> (fst (unblockUser token userID w) = None
        \<and> (\<exists>r. rows w token = Some r \<and> blocked_users r \<noteq> [])
       \<longrightarrow> appeal_count_now (snd (unblockUser token userID w)) token userID = 0)"
proof (intro conjI impI)
  show "appeal_count_now (snd (blockUser t u w)) token userID = appeal_count_now w token userID"
    by (rule blockUser_count)
next
  let ?c = "appeal_count_now w token userID"
  have eq: "wrap64 (?c + 1) = (if ?c = int64_max then int64_min else ?c + 1)"
    by (rule wrap64_succ) (rule appeal_count_now_in_int64)
  show "appeal_count_now (snd (incrementAppealCount t u w)) token userID = ?c
        \<or> t = token \<and> u = userID
          \<and> appeal_count_now (snd (incrementAppealCount t u w)) token userID =
              (if ?c = int64_max then int64_min else ?c + 1)"
    using incrementAppealCount_count [of t u w token userID] by (simp only: eq)
next
  show "appeal_count_now (snd (unblockUser t u w)) token userID = appeal_count_now w token userID
        \<or> t = token \<and> u = userID
          \<and> appeal_count_now (snd (unblockUser t u w)) token userID = 0"
    by (rule unblockUser_count)
next
  assume "fst (unblockUser token userID w) = None
        \<and> (\<exists>r. rows w token = Some r \<and> blocked_users r \<noteq> [])"
  then obtain r where "fst (unblockUser token userID w) = None" "rows w token = Some r"
    "blocked_users r \<noteq> []" by auto
  then show "appeal_count_now (snd (unblockUser token userID w)) token userID = 0"
    by (rule unblockUser_count_success)
qed

text \<open>
  User 42 of bot \<open>T\<close> is blocked with three appeals: unblocking succeeds and leaves the
  count at 0.
\<close>

theorem appeal_count_changes_witness:
  "fst (unblockUser ''T'' 42 (example_world ''7,42'' (json_Marshal [(''42'', 3)]) [] [])) = None
   \<and> (\<exists>r. rows (example_world ''7,42'' (json_Marshal [(''42'', 3)]) [] []) ''T'' = Some r
          \<and> blocked_users r \<noteq> [])
   \<and> appeal_count_now (example_world ''7,42'' (json_Marshal [(''42'', 3)]) [] []) ''T'' 42 = 3
   \<and> appeal_count_now
        (snd (unblockUser ''T'' 42 (example_world ''7,42'' (json_Marshal [(''42'', 3)]) [] [])))
        ''T'' 42 = 0"
proof -
  let ?w = "example_world ''7,42'' (json_Marshal [(''42'', 3)]) [] []"
  have ok: "fst (unblockUser ''T'' 42 ?w) = None"
    by (simp add: unblockUser_def eval_defs Let_def)
  have r: "\<exists>r. rows ?w ''T'' = Some r \<and> blocked_users r \<noteq> []"
    by (simp add: example_world_def)
  have c: "appeal_count_now ?w ''T'' 42 = 3"
    by (simp add: appeal_count_now_def getAppealCount_def eval_defs)
  from appeal_count_changes [of "''T''" 42 ?w "''T''" 42] ok r
  have "appeal_count_now (snd (unblockUser ''T'' 42 ?w)) ''T'' 42 = 0"
    by blast
  with ok r c show ?thesis by blast
qed

text \<open>
  Claim C7 as stated fails where it says that Unblock always resets the count. In the
  state the run \<open>stale_appeal_run\<close> of the worker leaves behind, user 42 is not blocked,
  the blocked list of the bot is empty and the user's appeal count is 1; \<open>unblockUser\<close>
  then returns success at its check of the empty list, and the count is still 1.
\<close>

theorem unblock_keeps_count_counterexample:
  "appeal_count_now stale_world ''T'' 42 = 1
   \<and> fst (unblockUser ''T'' 42 stale_world) = None
   \<and> appeal_count_now (snd (unblockUser ''T'' 42 stale_world)) ''T'' 42 = 1"
proof -
  have c: "appeal_count_now stale_world ''T'' 42 = 1"
    by (simp add: appeal_count_now_eq stale_world_store count_in_def library_defs)
  have ok: "fst (unblockUser ''T'' 42 stale_world) = None"
    by (simp add: unblockUser_def prim stale_world_store)
  have "rows (snd (unblockUser ''T'' 42 stale_world)) = rows stale_world"
    by (simp add: unblockUser_def prim stale_world_store)
  then have "appeal_count_now (snd (unblockUser ''T'' 42 stale_world)) ''T'' 42 =
      appeal_count_now stale_world ''T'' 42"
    by (rule count_now_same)
  with c ok show ?thesis by simp
qed

end
